theory Spec2Isabelle
  imports Complex_Main "HOL-Library.AList" "HOL-Library.Multiset" "HOL-Library.Product_Lexorder"
begin

section \<open>JavaScript primitives used by the analyzer\<close>

text \<open>
  Strings are lists of code units. Sizes, deltas and addresses are JavaScript numbers holding
  integers; they are modelled as unbounded \<open>nat\<close>/\<open>int\<close>, which is exact as long as the values
  stay inside the range in which a double represents every integer. Percentages are the only
  fractional values of the code and are modelled as exact rationals.
\<close>

text \<open>\<open>String.prototype.split(c)\<close> for a one-character separator: never returns an empty array.\<close>

fun split_on :: "char \<Rightarrow> string \<Rightarrow> string list" where
  "split_on c [] = [] # []"
| "split_on c (x # xs) =
     (if x = c then [] # split_on c xs
      else (case split_on c xs of [] \<Rightarrow> [x] # [] | p # ps \<Rightarrow> (x # p) # ps))"

text \<open>\<open>Array.prototype.join(c)\<close> on an array of strings.\<close>

fun join_with :: "char \<Rightarrow> string list \<Rightarrow> string" where
  "join_with c [] = []"
| "join_with c [p] = p"
| "join_with c (p # q # ps) = p @ c # join_with c (q # ps)"

text \<open>\<open>s.startsWith(p)\<close>.\<close>

definition startsWith :: "string \<Rightarrow> string \<Rightarrow> bool" where
  "startsWith s p = (take (length p) s = p)"

text \<open>
  \<open>Array.prototype.sort\<close> is stable. With the comparator \<open>(a, b) => f(b) - f(a)\<close> it arranges
  the array by decreasing \<open>f\<close> and keeps elements of equal \<open>f\<close> in their previous order; that is
  the stable insertion sort of the library on the negated key.
\<close>

definition sortDescBy :: "('a \<Rightarrow> int) \<Rightarrow> 'a list \<Rightarrow> 'a list" where
  "sortDescBy f xs = sort_key (\<lambda>x. - f x) xs"

text \<open>
  \<open>arr.slice(0, e)\<close>: a negative end counts from the end of the array, an end beyond the
  length is clamped.
\<close>

definition slice0 :: "int \<Rightarrow> 'a list \<Rightarrow> 'a list" where
  "slice0 e xs =
     (let len = int (length xs);
          k = (if e < 0 then max (len + e) 0 else min e len)
      in take (nat k) xs)"

text \<open>
  A JavaScript \<open>Map\<close> with string keys is an association list in insertion order:
  \<open>m.set(k, v)\<close> is \<^const>\<open>AList.update\<close> (an existing key keeps its place, a new key goes to
  the end), \<open>m.get(k)\<close> is \<^const>\<open>map_of\<close>, \<open>m.delete(k)\<close> is \<^const>\<open>AList.delete\<close>,
  \<open>m.keys()\<close> is \<open>map fst\<close> and \<open>m.values()\<close> is \<open>map snd\<close>.
\<close>

section \<open>Data model\<close>

text \<open>
  A section of a parsed map file: \<open>{name, address, size, filePath}\<close>. The fields carry the
  prefix \<open>sec_\<close>. A missing (\<open>undefined\<close>) or \<open>null\<close> address or file path is \<open>None\<close>.
\<close>

record Section =
  sec_name :: string
  sec_address :: "string option"
  sec_size :: nat
  sec_filePath :: "string option"

text \<open>An aggregated section: \<open>{name, size, subsections, filePath}\<close>, fields prefixed \<open>ag_\<close>.\<close>

record AggregatedSection =
  ag_name :: string
  ag_size :: nat
  ag_subsections :: nat
  ag_filePath :: "string option"

section \<open>Section aggregation (parser module, \<open>aggregateSections\<close>)\<close>

text \<open>\<open>section.name.split('.').slice(0, 2).join('.')\<close>\<close>

definition parentName :: "string \<Rightarrow> string" where
  "parentName n = join_with CHR ''.'' (take 2 (split_on CHR ''.'' n))"

text \<open>The body of the \<open>forEach\<close>: one section folded into the map of groups.\<close>

definition aggregateStep ::
  "(string \<times> AggregatedSection) list \<Rightarrow> Section \<Rightarrow> (string \<times> AggregatedSection) list" where
  "aggregateStep aggregated s =
     (let p = parentName (sec_name s) in
      case map_of aggregated p of
        Some existing \<Rightarrow>
          AList.update p
            (existing\<lparr>ag_size := ag_size existing + sec_size s,
                      ag_subsections := ag_subsections existing + 1\<rparr>) aggregated
      | None \<Rightarrow>
          AList.update p
            \<lparr>ag_name = p, ag_size = sec_size s, ag_subsections = 1, ag_filePath = None\<rparr>
            aggregated)"

definition aggregateSections :: "Section list \<Rightarrow> AggregatedSection list" where
  "aggregateSections secs =
     sortDescBy (\<lambda>a. int (ag_size a)) (map snd (foldl aggregateStep [] secs))"

text \<open>
  The dashboard's copy of the function (\<open>sectionUtils.ts\<close>) keeps a name of at most two
  segments as it is, and for such a name keeps the section's own file path and leaves
  \<open>subsections\<close> undefined until a second entry joins the group.
\<close>

record FeSection =
  fe_name :: string
  fe_size :: nat
  fe_subsections :: "nat option"
  fe_filePath :: "string option"

definition parentNameFe :: "string \<Rightarrow> string" where
  "parentNameFe n =
     (let parts = split_on CHR ''.'' n in
      if length parts > 2 then join_with CHR ''.'' (take 2 parts) else n)"

definition aggregateStepFe ::
  "(string \<times> FeSection) list \<Rightarrow> Section \<Rightarrow> (string \<times> FeSection) list" where
  "aggregateStepFe aggregated s =
     (let parts = split_on CHR ''.'' (sec_name s);
          p = parentNameFe (sec_name s) in
      case map_of aggregated p of
        Some existing \<Rightarrow>
          AList.update p
            (existing\<lparr>fe_size := fe_size existing + sec_size s,
                      fe_subsections :=
                        Some ((case fe_subsections existing of
                                 None \<Rightarrow> 1
                               | Some k \<Rightarrow> if k = 0 then 1 else k) + 1)\<rparr>) aggregated
      | None \<Rightarrow>
          AList.update p
            \<lparr>fe_name = p, fe_size = sec_size s,
             fe_subsections = (if length parts > 2 then Some 1 else None),
             fe_filePath = (if length parts > 2 then None else sec_filePath s)\<rparr>
            aggregated)"

definition aggregateSectionsFe :: "Section list \<Rightarrow> FeSection list" where
  "aggregateSectionsFe secs =
     sortDescBy (\<lambda>a. int (fe_size a)) (map snd (foldl aggregateStepFe [] secs))"

section \<open>Map file parser (\<open>parseMapFile\<close>)\<close>

text \<open>
  Character classes of the two regular expressions. Code units are restricted to the range
  \<open>0..255\<close>, in which \<open>\s\<close> is TAB, LF, VT, FF, CR, space and the no-break space, and the
  line terminators (what \<open>.\<close> refuses and what \<open>^\<close> follows under the \<open>m\<close> flag) are LF and CR.
\<close>

definition isSpace :: "char \<Rightarrow> bool" where
  "isSpace c = (c \<in> set [CHR 0x09, CHR 0x0A, CHR 0x0B, CHR 0x0C, CHR 0x0D, CHR 0x20, CHR 0xA0])"

definition isLineTerminator :: "char \<Rightarrow> bool" where
  "isLineTerminator c = (c \<in> set [CHR 0x0A, CHR 0x0D])"

definition isHexDigit :: "char \<Rightarrow> bool" where
  "isHexDigit c = (c \<in> set ''0123456789abcdefABCDEF'')"

definition isNameChar :: "char \<Rightarrow> bool" where
  "isNameChar c =
     (c \<in> set ''abcdefghijklmnopqrstuvwxyzABCDEFGHIJKLMNOPQRSTUVWXYZ0123456789_.'')"

definition isRegionChar :: "char \<Rightarrow> bool" where
  "isRegionChar c = (c \<in> set ''ABCDEFGHIJKLMNOPQRSTUVWXYZ_'')"

text \<open>\<open>String.prototype.trim\<close>\<close>

definition trim :: "string \<Rightarrow> string" where
  "trim s = rev (dropWhile isSpace (rev (dropWhile isSpace s)))"

text \<open>
  \<open>parseInt(s, 16)\<close>: leading white space, an optional sign and an optional \<open>0x\<close>/\<open>0X\<close> are
  skipped, then the longest run of hexadecimal digits is read; without a digit the result
  is \<open>NaN\<close>.
\<close>

datatype JsNum = NaN | Num int

definition hexDigitValue :: "char \<Rightarrow> nat" where
  "hexDigitValue c =
     (if c \<in> set ''ABCDEF'' then 10 + length (takeWhile (\<lambda>d. d \<noteq> c) ''ABCDEF'')
      else length (takeWhile (\<lambda>d. d \<noteq> c) ''0123456789abcdef''))"

definition hexValue :: "string \<Rightarrow> nat" where
  "hexValue ds = foldl (\<lambda>acc c. 16 * acc + hexDigitValue c) 0 ds"

definition parseInt16 :: "string \<Rightarrow> JsNum" where
  "parseInt16 s =
     (let s1 = dropWhile isSpace s;
          neg = startsWith s1 ''-'';
          s2 = (if s1 \<noteq> [] \<and> (hd s1 = CHR ''-'' \<or> hd s1 = CHR ''+'') then tl s1 else s1);
          s3 = (if length s2 \<ge> 2 \<and> (take 2 s2 = ''0x'' \<or> take 2 s2 = ''0X'') then drop 2 s2 else s2);
          ds = takeWhile isHexDigit s3
      in if ds = [] then NaN
         else Num (if neg then - int (hexValue ds) else int (hexValue ds)))"

text \<open>
  The section pattern
  \<open>/^\s*(\.[a-zA-Z0-9_\.]+)\s+0x([0-9a-fA-F]+)\s+0x([0-9a-fA-F]+)(?:\s+(.+))?/\<close>.
  Every greedy run is followed by something that no character of the run can start, so
  giving characters back never helps and each run is the longest one; only the optional
  tail \<open>(?:\s+(.+))?\<close> backtracks, when the white space reaches the end of the line.
\<close>

text \<open>\<open>\s+\<close>: at least one white-space character, all of them taken.\<close>

definition expectSpaces :: "string \<Rightarrow> string option" where
  "expectSpaces r = (if r \<noteq> [] \<and> isSpace (hd r) then Some (dropWhile isSpace r) else None)"

text \<open>\<open>0x([0-9a-fA-F]+)\<close>: the digits and what follows them.\<close>

definition expectHex :: "string \<Rightarrow> (string \<times> string) option" where
  "expectHex r =
     (if startsWith r ''0x'' \<and> takeWhile isHexDigit (drop 2 r) \<noteq> []
      then Some (takeWhile isHexDigit (drop 2 r), dropWhile isHexDigit (drop 2 r))
      else None)"

text \<open>
  \<open>(?:\s+(.+))?\<close>: \<open>\s+\<close> takes \<open>k\<close> white-space characters, the largest \<open>k \<ge> 1\<close> after which
  a character other than a line terminator is left, and \<open>(.+)\<close> runs to the next line
  terminator; with no such \<open>k\<close> the group does not take part.
\<close>

definition matchTrailing :: "string \<Rightarrow> string option" where
  "matchTrailing r =
     (let n = length (takeWhile isSpace r) in
      case filter (\<lambda>k. k < length r \<and> \<not> isLineTerminator (r ! k)) (rev [1..<Suc n]) of
        [] \<Rightarrow> None
      | k # _ \<Rightarrow> Some (takeWhile (\<lambda>c. \<not> isLineTerminator c) (drop k r)))"

text \<open>The groups 1 to 4 of a matching line.\<close>

definition matchSectionLine :: "string \<Rightarrow> (string \<times> string \<times> string \<times> string option) option" where
  "matchSectionLine line =
     (let r0 = dropWhile isSpace line in
      if \<not> startsWith r0 ''.'' \<or> takeWhile isNameChar (tl r0) = [] then None
      else
        let nm = CHR ''.'' # takeWhile isNameChar (tl r0) in
        case expectSpaces (dropWhile isNameChar (tl r0)) of
          None \<Rightarrow> None
        | Some r1 \<Rightarrow>
            (case expectHex r1 of
               None \<Rightarrow> None
             | Some (addr, r2) \<Rightarrow>
                 (case expectSpaces r2 of
                    None \<Rightarrow> None
                  | Some r3 \<Rightarrow>
                      (case expectHex r3 of
                         None \<Rightarrow> None
                       | Some (sz, r4) \<Rightarrow> Some (nm, addr, sz, matchTrailing r4)))))"

text \<open>The two \<open>split(...).pop()\<close> steps that reduce a path to its base name.\<close>

definition baseName :: "string \<Rightarrow> string" where
  "baseName p =
     (let p1 = (if CHR ''/'' \<in> set p then last (split_on CHR ''/'' p) else p)
      in if CHR 0x5C \<in> set p1 then last (split_on CHR 0x5C p1) else p1)"

text \<open>
  The body of the loop over the lines: the section pushed for a line, if any. An empty
  \<open>filePath\<close> is skipped by both \<open>if (filePath && ...)\<close> tests and stored as \<open>null\<close>.
\<close>

definition sectionOfLine :: "string \<Rightarrow> Section option" where
  "sectionOfLine line =
     (case matchSectionLine line of
        None \<Rightarrow> None
      | Some (nm, addr, sizeHex, tail) \<Rightarrow>
          (let filePath = baseName (case tail of Some t \<Rightarrow> trim t | None \<Rightarrow> [])
           in case parseInt16 sizeHex of
                NaN \<Rightarrow> None
              | Num sz \<Rightarrow>
                  if sz > 0
                  then Some \<lparr>sec_name = nm, sec_address = Some (''0x'' @ addr), sec_size = nat sz,
                             sec_filePath = (if filePath = [] then None else Some filePath)\<rparr>
                  else None))"

text \<open>The array \<open>sections\<close> before it is sorted: the matches in the order of the lines.\<close>

definition scanSections :: "string \<Rightarrow> Section list" where
  "scanSections content = List.map_filter sectionOfLine (split_on CHR 0x0A content)"

text \<open>
  The memory block, \<open>/Memory Configuration\s+([\s\S]*?)(?=\n\n|\nLinker script)/\<close>: the
  leftmost occurrence of the marker for which some split of the white space after it lets
  the lazy group reach a position where the lookahead holds.
\<close>

definition lookaheadHolds :: "string \<Rightarrow> bool" where
  "lookaheadHolds r =
     (startsWith r [CHR 0x0A, CHR 0x0A] \<or> startsWith r (CHR 0x0A # ''Linker script''))"

fun lazyUntilLookahead :: "string \<Rightarrow> string option" where
  "lazyUntilLookahead [] = None"
| "lazyUntilLookahead (c # cs) =
     (if lookaheadHolds (c # cs) then Some []
      else map_option ((#) c) (lazyUntilLookahead cs))"

definition matchMemoryBlock :: "string \<Rightarrow> string option" where
  "matchMemoryBlock r =
     (let n = length (takeWhile isSpace r) in
      case List.map_filter (\<lambda>k. lazyUntilLookahead (drop k r)) (rev [1..<Suc n]) of
        [] \<Rightarrow> None
      | m # _ \<Rightarrow> Some m)"

fun findMemorySection :: "string \<Rightarrow> string option" where
  "findMemorySection [] = None"
| "findMemorySection (c # cs) =
     (if startsWith (c # cs) ''Memory Configuration''
      then (case matchMemoryBlock (drop (length ''Memory Configuration'') (c # cs)) of
              Some m \<Rightarrow> Some m
            | None \<Rightarrow> findMemorySection cs)
      else findMemorySection cs)"

text \<open>
  A region line, \<open>/^([A-Z_]+)\s+0x([0-9a-fA-F]+)\s+0x([0-9a-fA-F]+)/gm\<close>: name, origin, length
  and the text after the match.
\<close>

definition matchMemoryLine :: "string \<Rightarrow> (string \<times> string \<times> string \<times> string) option" where
  "matchMemoryLine r =
     (if takeWhile isRegionChar r = [] then None
      else
        case expectSpaces (dropWhile isRegionChar r) of
          None \<Rightarrow> None
        | Some r1 \<Rightarrow>
            (case expectHex r1 of
               None \<Rightarrow> None
             | Some (origin, r2) \<Rightarrow>
                 (case expectSpaces r2 of
                    None \<Rightarrow> None
                  | Some r3 \<Rightarrow>
                      (case expectHex r3 of
                         None \<Rightarrow> None
                       | Some (len, r4) \<Rightarrow> Some (takeWhile isRegionChar r, origin, len, r4)))))"

text \<open>
  The \<open>exec\<close> loop. \<open>atStart\<close> says whether \<open>^\<close> holds at the current position, \<open>skip\<close>
  counts the characters of the last match that are still to be passed (the next search
  starts at \<open>lastIndex\<close>, the end of the match).
\<close>

fun scanMemoryLines :: "bool \<Rightarrow> nat \<Rightarrow> string \<Rightarrow> (string \<times> string \<times> string) list" where
  "scanMemoryLines atStart skip [] = []"
| "scanMemoryLines atStart skip (c # cs) =
     (if skip > 0 then scanMemoryLines (isLineTerminator c) (skip - 1) cs
      else if atStart then
        (case matchMemoryLine (c # cs) of
           Some (nm, origin, len, rest) \<Rightarrow>
             (nm, origin, len) # scanMemoryLines (isLineTerminator c) (length cs - length rest) cs
         | None \<Rightarrow> scanMemoryLines (isLineTerminator c) 0 cs)
      else scanMemoryLines (isLineTerminator c) 0 cs)"

record MemoryRegion =
  mr_origin :: string
  mr_length :: string
  mr_lengthBytes :: JsNum

text \<open>The result of a parse (and the input of both comparers): \<open>{memory, sections}\<close>.\<close>

record AnalysisResult =
  memory :: "(string \<times> MemoryRegion) list"
  sections :: "Section list"

definition parseMemory :: "string \<Rightarrow> (string \<times> MemoryRegion) list" where
  "parseMemory content =
     (case findMemorySection content of
        None \<Rightarrow> []
      | Some memorySection \<Rightarrow>
          foldl (\<lambda>m (nm, origin, len).
                   AList.update nm
                     \<lparr>mr_origin = ''0x'' @ origin, mr_length = ''0x'' @ len,
                      mr_lengthBytes = parseInt16 len\<rparr> m)
            [] (scanMemoryLines True 0 memorySection))"

text \<open>\<open>parseMapFile\<close>, on the text read from the file.\<close>

definition parseMapFile :: "string \<Rightarrow> AnalysisResult" where
  "parseMapFile content =
     \<lparr>memory = parseMemory content,
      sections = sortDescBy (\<lambda>s. int (sec_size s)) (scanSections content)\<rparr>"

section \<open>Summary comparison (\<open>compareAnalysis.js\<close>)\<close>

text \<open>
  The options object after destructuring: a field that the caller left out holds its
  default. The server reads \<open>topN\<close> and \<open>anomalyThresholdBytes\<close> with \<open>parseInt\<close> and
  \<open>anomalyThresholdPct\<close> with \<open>parseFloat\<close>, so the first two are integers of either sign.
\<close>

record CompareOptions =
  topN :: int
  anomalyThresholdPct :: rat
  anomalyThresholdBytes :: int
  includeUnchanged :: bool

definition defaultCompareOptions :: CompareOptions where
  "defaultCompareOptions =
     \<lparr>topN = 20, anomalyThresholdPct = 20, anomalyThresholdBytes = 1024,
      includeUnchanged = False\<rparr>"

datatype DiffStatus = Added | Removed | Modified

record SectionDiff =
  sd_name :: string
  sd_file :: "string option"
  sd_addressA :: "string option"
  sd_addressB :: "string option"
  sd_sizeA :: nat
  sd_sizeB :: nat
  sd_delta :: int
  sd_deltaPct :: rat
  sd_status :: DiffStatus

text \<open>\<open>a || b\<close> on values that are a string, \<open>null\<close> or \<open>undefined\<close>: the empty string is falsy.\<close>

definition truthy :: "string option \<Rightarrow> bool" where
  "truthy a = (case a of None \<Rightarrow> False | Some v \<Rightarrow> v \<noteq> [])"

definition jsOr :: "string option \<Rightarrow> string option \<Rightarrow> string option" where
  "jsOr a b = (if truthy a then a else b)"

text \<open>
  \<open>parseFloat(x.toFixed(2))\<close>: \<open>x\<close> rounded to two decimals, a tie going away from zero.
  The code rounds and compares doubles, this model exact rationals: the two can differ where
  the exact percentage is a rounding tie or equals a threshold. The statements proved here
  use the percentage only where it is exactly 0 or 100.
\<close>

definition toFixed2 :: "rat \<Rightarrow> rat" where
  "toFixed2 x = sgn x * of_int \<lfloor>\<bar>x\<bar> * 100 + 1 / 2\<rfloor> / 100"

text \<open>\<open>new Map(sections.map(s => [s.name, s]))\<close>\<close>

definition sectionsByName :: "Section list \<Rightarrow> (string \<times> Section) list" where
  "sectionsByName secs = foldl (\<lambda>m s. AList.update (sec_name s) s m) [] secs"

text \<open>\<open>new Set([...])\<close>: the elements in the order of their first occurrence.\<close>

definition jsSet :: "'a list \<Rightarrow> 'a list" where
  "jsSet xs = foldl (\<lambda>acc x. if x \<in> set acc then acc else acc @ [x]) [] xs"

definition allSectionNames :: "AnalysisResult \<Rightarrow> AnalysisResult \<Rightarrow> string list" where
  "allSectionNames analysisA analysisB =
     jsSet (map fst (sectionsByName (sections analysisA))
            @ map fst (sectionsByName (sections analysisB)))"

text \<open>The body of the loop over the names; \<open>None\<close> is the \<open>continue\<close>.\<close>

definition sectionDiffOf ::
  "bool \<Rightarrow> (string \<times> Section) list \<Rightarrow> (string \<times> Section) list \<Rightarrow> string \<Rightarrow> SectionDiff option" where
  "sectionDiffOf inclUnchanged sectionsA sectionsB nm =
     (let secA = map_of sectionsA nm;
          secB = map_of sectionsB nm;
          sizeA = (case secA of Some a \<Rightarrow> sec_size a | None \<Rightarrow> 0);
          sizeB = (case secB of Some b \<Rightarrow> sec_size b | None \<Rightarrow> 0);
          delta = int sizeB - int sizeA;
          deltaPct = (if sizeA > 0 then (of_int delta / of_nat sizeA) * 100
                      else if sizeB > 0 then 100 else 0)
      in if \<not> inclUnchanged \<and> delta = 0 then None
         else Some
           \<lparr>sd_name = nm,
            sd_file = jsOr (Option.bind secB sec_filePath) (jsOr (Option.bind secA sec_filePath) None),
            sd_addressA = jsOr (Option.bind secA sec_address) None,
            sd_addressB = jsOr (Option.bind secB sec_address) None,
            sd_sizeA = sizeA,
            sd_sizeB = sizeB,
            sd_delta = delta,
            sd_deltaPct = toFixed2 deltaPct,
            sd_status = (if sizeA = 0 then Added else if sizeB = 0 then Removed else Modified)\<rparr>)"

text \<open>The array \<open>sectionDiffs\<close> as the loop leaves it.\<close>

definition sectionDiffs :: "AnalysisResult \<Rightarrow> AnalysisResult \<Rightarrow> CompareOptions \<Rightarrow> SectionDiff list" where
  "sectionDiffs analysisA analysisB options =
     List.map_filter
       (sectionDiffOf (includeUnchanged options)
          (sectionsByName (sections analysisA)) (sectionsByName (sections analysisB)))
       (allSectionNames analysisA analysisB)"

record FileGroup =
  fg_file :: string
  fg_sizeA :: nat
  fg_sizeB :: nat
  fg_delta :: int
  fg_deltaPct :: rat
  fg_sectionCount :: nat
  fg_sections :: "string list"

definition fileGroupStep :: "(string \<times> FileGroup) list \<Rightarrow> SectionDiff \<Rightarrow> (string \<times> FileGroup) list" where
  "fileGroupStep fileMap section =
     (let fileName = (if truthy (sd_file section) then the (sd_file section) else ''unknown'');
          fileMap1 = (if map_of fileMap fileName = None
                      then AList.update fileName
                             \<lparr>fg_file = fileName, fg_sizeA = 0, fg_sizeB = 0, fg_delta = 0,
                              fg_deltaPct = 0, fg_sectionCount = 0, fg_sections = []\<rparr> fileMap
                      else fileMap)
      in case map_of fileMap1 fileName of
           None \<Rightarrow> fileMap1
         | Some grp \<Rightarrow>
             AList.update fileName
               (grp\<lparr>fg_sizeA := fg_sizeA grp + sd_sizeA section,
                      fg_sizeB := fg_sizeB grp + sd_sizeB section,
                      fg_delta := fg_delta grp + sd_delta section,
                      fg_sectionCount := fg_sectionCount grp + 1,
                      fg_sections := fg_sections grp @ [sd_name section]\<rparr>) fileMap1)"

definition computeFileGroups :: "SectionDiff list \<Rightarrow> FileGroup list" where
  "computeFileGroups sdiffs =
     sortDescBy (\<lambda>g. \<bar>fg_delta g\<bar>)
       (map (\<lambda>grp.
               grp\<lparr>fg_deltaPct :=
                        (if fg_sizeA grp > 0
                         then toFixed2 ((of_int (fg_delta grp) / of_nat (fg_sizeA grp)) * 100)
                         else if fg_sizeB grp > 0 then 100 else 0)\<rparr>)
          (map snd (foldl fileGroupStep [] sdiffs)))"

text \<open>
  An anomaly of the summary comparison. A reason is kept as its kind and the number that
  the source formats into the message.
\<close>

datatype AnomalyType = SectionAnomaly | FileAnomaly | PatternAnomaly

datatype Severity = SevHigh | SevMedium | SevLow

datatype Reason =
    PctExceeds rat
  | BytesExceeds int
  | NewSectionWith nat
  | RemovedSectionHad nat
  | SmallIncreases nat
  | TotalFileChange int
  | BssGrowth int

record Anomaly =
  an_type :: AnomalyType
  an_name :: string
  an_file :: "string option"
  an_severity :: Severity
  an_reasons :: "Reason list"
  an_delta :: int
  an_deltaPct :: "rat option"
  an_affectedSections :: "nat option"

definition sectionAnomaly :: "rat \<Rightarrow> int \<Rightarrow> SectionDiff \<Rightarrow> Anomaly list" where
  "sectionAnomaly thresholdPct thresholdBytes section =
     (let reasons =
            (if \<bar>sd_deltaPct section\<bar> > thresholdPct
             then [PctExceeds \<bar>sd_deltaPct section\<bar>] else [])
          @ (if \<bar>sd_delta section\<bar> > thresholdBytes
             then [BytesExceeds \<bar>sd_delta section\<bar>] else [])
          @ (if sd_status section = Added \<and> int (sd_sizeB section) > thresholdBytes * 2
             then [NewSectionWith (sd_sizeB section)] else [])
          @ (if sd_status section = Removed \<and> int (sd_sizeA section) > thresholdBytes * 2
             then [RemovedSectionHad (sd_sizeA section)] else [])
      in if length reasons > 0
         then [\<lparr>an_type = SectionAnomaly, an_name = sd_name section, an_file = sd_file section,
                an_severity = (if \<bar>sd_delta section\<bar> > thresholdBytes * 10 then SevHigh else SevMedium),
                an_reasons = reasons, an_delta = sd_delta section,
                an_deltaPct = Some (sd_deltaPct section), an_affectedSections = None\<rparr>]
         else [])"

definition fileAnomaly :: "int \<Rightarrow> SectionDiff list \<Rightarrow> FileGroup \<Rightarrow> Anomaly list" where
  "fileAnomaly thresholdBytes sdiffs grp =
     (let smallIncreases =
            filter (\<lambda>s. sd_file s = Some (fg_file grp) \<and> sd_delta s > 0
                         \<and> sd_delta s < thresholdBytes) sdiffs;
          reasons =
            (if length smallIncreases > 5 then [SmallIncreases (length smallIncreases)] else [])
          @ (if \<bar>fg_delta grp\<bar> > thresholdBytes * 5
             then [TotalFileChange (fg_delta grp)] else [])
      in if length reasons > 0
         then [\<lparr>an_type = FileAnomaly, an_name = fg_file grp, an_file = None,
                an_severity = (if \<bar>fg_delta grp\<bar> > thresholdBytes * 20 then SevHigh else SevLow),
                an_reasons = reasons, an_delta = fg_delta grp,
                an_deltaPct = Some (fg_deltaPct grp),
                an_affectedSections = Some (fg_sectionCount grp)\<rparr>]
         else [])"

definition bssAnomaly :: "int \<Rightarrow> SectionDiff list \<Rightarrow> Anomaly list" where
  "bssAnomaly thresholdBytes sdiffs =
     (let bssSections = filter (\<lambda>s. startsWith (sd_name s) ''.bss'') sdiffs;
          totalBssDelta = foldl (\<lambda>sum s. sum + sd_delta s) 0 bssSections
      in if totalBssDelta > thresholdBytes * 5
         then [\<lparr>an_type = PatternAnomaly, an_name = ''.bss sections'', an_file = None,
                an_severity = SevMedium, an_reasons = [BssGrowth totalBssDelta],
                an_delta = totalBssDelta, an_deltaPct = None,
                an_affectedSections = Some (length (filter (\<lambda>s. sd_delta s > 0) bssSections))\<rparr>]
         else [])"

definition severityOrder :: "Severity \<Rightarrow> int" where
  "severityOrder v = (case v of SevHigh \<Rightarrow> 3 | SevMedium \<Rightarrow> 2 | SevLow \<Rightarrow> 1)"

text \<open>
  The final sort compares the severity ranks and, where they are equal, the absolute
  deltas, both decreasing: a stable sort on the pair of negated keys.
\<close>

definition detectAnomalies :: "SectionDiff list \<Rightarrow> FileGroup list \<Rightarrow> rat \<Rightarrow> int \<Rightarrow> Anomaly list" where
  "detectAnomalies sdiffs fileGroups thresholdPct thresholdBytes =
     sort_key (\<lambda>a. (- severityOrder (an_severity a), - \<bar>an_delta a\<bar>))
       (concat (map (sectionAnomaly thresholdPct thresholdBytes) sdiffs)
        @ concat (map (fileAnomaly thresholdBytes sdiffs) fileGroups)
        @ bssAnomaly thresholdBytes sdiffs)"

record Summary =
  totalFlashA :: nat
  totalFlashB :: nat
  totalRamA :: nat
  totalRamB :: nat
  flashDelta :: int
  flashDeltaPct :: rat
  ramDelta :: int
  ramDeltaPct :: rat
  totalSectionsA :: nat
  totalSectionsB :: nat
  sectionsAdded :: nat
  sectionsRemoved :: nat
  sectionsModified :: nat

definition totalFlash :: "Section list \<Rightarrow> nat" where
  "totalFlash secs =
     foldl (\<lambda>sum s. sum + sec_size s) 0
       (filter (\<lambda>s. startsWith (sec_name s) ''.text'' \<or> startsWith (sec_name s) ''.rodata'') secs)"

definition totalRam :: "Section list \<Rightarrow> nat" where
  "totalRam secs =
     foldl (\<lambda>sum s. sum + sec_size s) 0
       (filter (\<lambda>s. startsWith (sec_name s) ''.data'' \<or> startsWith (sec_name s) ''.bss'') secs)"

record CompareResult =
  cr_summary :: Summary
  cr_sections :: "SectionDiff list"
  cr_fileGroups :: "FileGroup list"
  cr_topIncreases :: "SectionDiff list"
  cr_topDecreases :: "SectionDiff list"
  cr_anomalies :: "Anomaly list"
  cr_comparedAt :: string
  cr_optionsUsed :: CompareOptions

text \<open>
  \<open>compareAnalyses\<close>. The first argument is the time stamp that \<open>new Date().toISOString()\<close>
  returns when the result is built.
\<close>

definition compareAnalyses ::
  "string \<Rightarrow> AnalysisResult \<Rightarrow> AnalysisResult \<Rightarrow> CompareOptions \<Rightarrow> CompareResult" where
  "compareAnalyses now analysisA analysisB options =
     (let sdiffs = sectionDiffs analysisA analysisB options;
          fileGroups = computeFileGroups sdiffs;
          flashA = totalFlash (sections analysisA);
          flashB = totalFlash (sections analysisB);
          ramA = totalRam (sections analysisA);
          ramB = totalRam (sections analysisB);
          fDelta = int flashB - int flashA;
          rDelta = int ramB - int ramA;
          summary =
            \<lparr>totalFlashA = flashA, totalFlashB = flashB, totalRamA = ramA, totalRamB = ramB,
             flashDelta = fDelta,
             flashDeltaPct = (if flashA > 0 then toFixed2 ((of_int fDelta / of_nat flashA) * 100) else 0),
             ramDelta = rDelta,
             ramDeltaPct = (if ramA > 0 then toFixed2 ((of_int rDelta / of_nat ramA) * 100) else 0),
             totalSectionsA = length (sections analysisA),
             totalSectionsB = length (sections analysisB),
             sectionsAdded = length (filter (\<lambda>s. sd_status s = Added) sdiffs),
             sectionsRemoved = length (filter (\<lambda>s. sd_status s = Removed) sdiffs),
             sectionsModified = length (filter (\<lambda>s. sd_status s = Modified) sdiffs)\<rparr>;
          sortedByDelta = sortDescBy sd_delta sdiffs;
          topIncreases = slice0 (topN options) (filter (\<lambda>s. sd_delta s > 0) sortedByDelta);
          topDecreases = slice0 (topN options) (rev (filter (\<lambda>s. sd_delta s < 0) sortedByDelta));
          anomalies = detectAnomalies sdiffs fileGroups
                        (anomalyThresholdPct options) (anomalyThresholdBytes options)
      in \<lparr>cr_summary = summary,
          cr_sections = sortDescBy (\<lambda>s. \<bar>sd_delta s\<bar>) sdiffs,
          cr_fileGroups = fileGroups,
          cr_topIncreases = topIncreases,
          cr_topDecreases = topDecreases,
          cr_anomalies = anomalies,
          cr_comparedAt = now,
          cr_optionsUsed = options\<rparr>)"

section \<open>Version diff (\<open>computeMemoryDiff\<close>)\<close>

record DiffOptions =
  anomalyGrowthThreshold :: rat
  anomalyShrinkThreshold :: rat
  addressShiftThreshold :: int

definition defaultDiffOptions :: DiffOptions where
  "defaultDiffOptions =
     \<lparr>anomalyGrowthThreshold = 10, anomalyShrinkThreshold = 10, addressShiftThreshold = 0x1000\<rparr>"

datatype VersionStatus = StAdded | StRemoved | StGrowth | StShrink | StSame

datatype Region = FLASH | RAM | OTHER

datatype DiffSeverity = Critical | High | Medium | Low

record DiffEntry =
  de_name :: string
  de_filePath :: "string option"
  de_sizeV1 :: nat
  de_sizeV2 :: nat
  de_sizeDiff :: int
  de_sizeDiffPct :: rat
  de_addressV1 :: "string option"
  de_addressV2 :: "string option"
  de_addressDiff :: "JsNum option"
  de_addressShifted :: bool
  de_status :: VersionStatus
  de_region :: Region

definition determineRegion :: "string \<Rightarrow> Region" where
  "determineRegion sectionName =
     (if startsWith sectionName ''.text'' \<or> startsWith sectionName ''.rodata'' then FLASH
      else if startsWith sectionName ''.data'' \<or> startsWith sectionName ''.bss'' then RAM
      else OTHER)"

definition determineSeverity :: "VersionStatus \<Rightarrow> rat \<Rightarrow> int \<Rightarrow> DiffSeverity" where
  "determineSeverity status sizeDiffPct sizeDiffAbs =
     (if status = StAdded \<or> status = StRemoved
      then (if sizeDiffAbs > 10240 then Critical else High)
      else if \<bar>sizeDiffPct\<bar> > 50 then Critical
      else if \<bar>sizeDiffPct\<bar> > 25 then High
      else if \<bar>sizeDiffPct\<bar> > 10 then Medium
      else Low)"

text \<open>The alignment key \<open>`${s.name}:${s.filePath || ''}`\<close>.\<close>

definition sectionKey :: "Section \<Rightarrow> string" where
  "sectionKey s =
     sec_name s @ '':'' @ (case sec_filePath s of Some f \<Rightarrow> f | None \<Rightarrow> [])"

definition sectionsByKey :: "Section list \<Rightarrow> (string \<times> Section) list" where
  "sectionsByKey secs = foldl (\<lambda>m s. AList.update (sectionKey s) s m) [] secs"

definition allKeys :: "AnalysisResult \<Rightarrow> AnalysisResult \<Rightarrow> string list" where
  "allKeys analysisV1 analysisV2 =
     jsSet (map fst (sectionsByKey (sections analysisV1))
            @ map fst (sectionsByKey (sections analysisV2)))"

text \<open>
  \<open>addr2Num - addr1Num\<close> and \<open>Math.abs(addressDiff) > threshold\<close> on numbers that may be
  \<open>NaN\<close>: a difference with \<open>NaN\<close> is \<open>NaN\<close>, a comparison with \<open>NaN\<close> is false.
\<close>

definition jsMinus :: "JsNum \<Rightarrow> JsNum \<Rightarrow> JsNum" where
  "jsMinus a b = (case (a, b) of (Num x, Num y) \<Rightarrow> Num (x - y) | _ \<Rightarrow> NaN)"

definition absGreater :: "JsNum \<Rightarrow> int \<Rightarrow> bool" where
  "absGreater a t = (case a of Num x \<Rightarrow> \<bar>x\<bar> > t | NaN \<Rightarrow> False)"

text \<open>
  The entry built for one key. \<open>key.split(':')\<close> gives the name as its first part and the
  file path as its second.
\<close>

definition diffEntryOf ::
  "DiffOptions \<Rightarrow> (string \<times> Section) list \<Rightarrow> (string \<times> Section) list \<Rightarrow> string \<Rightarrow> DiffEntry" where
  "diffEntryOf options sectionsV1 sectionsV2 key =
     (let v1 = map_of sectionsV1 key;
          v2 = map_of sectionsV2 key;
          parts = split_on CHR '':'' key;
          nm = hd parts;
          filePath = (if length parts \<ge> 2 then Some (parts ! 1) else None);
          sizeV1 = (case v1 of Some a \<Rightarrow> sec_size a | None \<Rightarrow> 0);
          sizeV2 = (case v2 of Some b \<Rightarrow> sec_size b | None \<Rightarrow> 0);
          sizeDiff = int sizeV2 - int sizeV1;
          sizeDiffPct = (if sizeV1 > 0 then (of_int sizeDiff / of_nat sizeV1) * 100
                         else if sizeV2 > 0 then 100 else 0);
          status = (if v1 = None \<and> v2 \<noteq> None then StAdded
                    else if v1 \<noteq> None \<and> v2 = None then StRemoved
                    else if sizeDiff > 0 then StGrowth
                    else if sizeDiff < 0 then StShrink
                    else StSame);
          addrV1 = jsOr (Option.bind v1 sec_address) None;
          addrV2 = jsOr (Option.bind v2 sec_address) None;
          addressDiff = (if truthy addrV1 \<and> truthy addrV2
                         then Some (jsMinus (parseInt16 (the addrV2)) (parseInt16 (the addrV1)))
                         else None);
          addressShifted = (case addressDiff of
                              Some d \<Rightarrow> absGreater d (addressShiftThreshold options)
                            | None \<Rightarrow> False)
      in \<lparr>de_name = nm,
          de_filePath = jsOr filePath None,
          de_sizeV1 = sizeV1,
          de_sizeV2 = sizeV2,
          de_sizeDiff = sizeDiff,
          de_sizeDiffPct = toFixed2 sizeDiffPct,
          de_addressV1 = addrV1,
          de_addressV2 = addrV2,
          de_addressDiff = addressDiff,
          de_addressShifted = addressShifted,
          de_status = status,
          de_region = determineRegion nm\<rparr>)"

text \<open>
  The reasons of an anomaly of the version diff, each with the numbers that the source
  formats into the message, and the anomaly \<open>{...diffEntry, reasons, severity}\<close>.
\<close>

datatype DiffReason =
    NewSection nat
  | RemovedSection nat
  | GrewBy rat int
  | ShrunkBy rat int
  | AddressShiftedBy JsNum

record DiffAnomaly =
  da_entry :: DiffEntry
  da_reasons :: "DiffReason list"
  da_severity :: DiffSeverity

text \<open>
  The percentage that the thresholds and the severity see is the one before rounding.
\<close>

definition rawSizeDiffPct :: "nat \<Rightarrow> nat \<Rightarrow> rat" where
  "rawSizeDiffPct sizeV1 sizeV2 =
     (if sizeV1 > 0 then (of_int (int sizeV2 - int sizeV1) / of_nat sizeV1) * 100
      else if sizeV2 > 0 then 100 else 0)"

definition jsAbs :: "JsNum \<Rightarrow> JsNum" where
  "jsAbs a = (case a of Num x \<Rightarrow> Num \<bar>x\<bar> | NaN \<Rightarrow> NaN)"

definition anomalyReasons :: "DiffOptions \<Rightarrow> DiffEntry \<Rightarrow> DiffReason list" where
  "anomalyReasons options e =
     (let sizeDiffPct = rawSizeDiffPct (de_sizeV1 e) (de_sizeV2 e) in
        (if de_status e = StAdded \<and> de_sizeV2 e > 1024 then [NewSection (de_sizeV2 e)] else [])
      @ (if de_status e = StRemoved \<and> de_sizeV1 e > 1024 then [RemovedSection (de_sizeV1 e)] else [])
      @ (if de_status e = StGrowth \<and> sizeDiffPct > anomalyGrowthThreshold options
         then [GrewBy sizeDiffPct (de_sizeDiff e)] else [])
      @ (if de_status e = StShrink \<and> \<bar>sizeDiffPct\<bar> > anomalyShrinkThreshold options
         then [ShrunkBy \<bar>sizeDiffPct\<bar> \<bar>de_sizeDiff e\<bar>] else [])
      @ (if de_addressShifted e
         then [AddressShiftedBy (case de_addressDiff e of Some d \<Rightarrow> jsAbs d | None \<Rightarrow> Num 0)]
         else []))"

definition anomalyOf :: "DiffOptions \<Rightarrow> DiffEntry \<Rightarrow> DiffAnomaly list" where
  "anomalyOf options e =
     (let reasons = anomalyReasons options e in
      if length reasons > 0
      then [\<lparr>da_entry = e, da_reasons = reasons,
             da_severity = determineSeverity (de_status e)
                             (rawSizeDiffPct (de_sizeV1 e) (de_sizeV2 e)) \<bar>de_sizeDiff e\<bar>\<rparr>]
      else [])"

definition diffSeverityOrder :: "DiffSeverity \<Rightarrow> int" where
  "diffSeverityOrder v = (case v of Critical \<Rightarrow> 4 | High \<Rightarrow> 3 | Medium \<Rightarrow> 2 | Low \<Rightarrow> 1)"

record DiffSummary =
  totalSectionsV1 :: nat
  totalSectionsV2 :: nat
  ds_sectionsAdded :: nat
  ds_sectionsRemoved :: nat
  sectionsGrowth :: nat
  sectionsShrink :: nat
  sectionsUnchanged :: nat
  totalSizeV1 :: nat
  totalSizeV2 :: nat
  totalSizeDiff :: int
  totalSizeDiffPct :: rat
  anomalyCount :: nat

record DiffResult =
  dr_summary :: DiffSummary
  dr_diff :: "DiffEntry list"
  dr_anomalies :: "DiffAnomaly list"
  dr_comparedAt :: string
  dr_options :: DiffOptions

text \<open>The array \<open>diffResults\<close> as the loop leaves it, in the order of the keys.\<close>

definition diffResults :: "AnalysisResult \<Rightarrow> AnalysisResult \<Rightarrow> DiffOptions \<Rightarrow> DiffEntry list" where
  "diffResults analysisV1 analysisV2 options =
     map (diffEntryOf options (sectionsByKey (sections analysisV1))
            (sectionsByKey (sections analysisV2)))
       (allKeys analysisV1 analysisV2)"

text \<open>
  \<open>computeMemoryDiff\<close>; the first argument is the time stamp read when the result is built.
\<close>

definition computeMemoryDiff ::
  "string \<Rightarrow> AnalysisResult \<Rightarrow> AnalysisResult \<Rightarrow> DiffOptions \<Rightarrow> DiffResult" where
  "computeMemoryDiff now analysisV1 analysisV2 options =
     (let results = diffResults analysisV1 analysisV2 options;
          anomalies = concat (map (anomalyOf options) results);
          sizeV1 = foldl (\<lambda>sum s. sum + sec_size s) 0 (sections analysisV1);
          sizeV2 = foldl (\<lambda>sum s. sum + sec_size s) 0 (sections analysisV2);
          sizeDiff = int sizeV2 - int sizeV1;
          summary =
            \<lparr>totalSectionsV1 = length (sections analysisV1),
             totalSectionsV2 = length (sections analysisV2),
             ds_sectionsAdded = length (filter (\<lambda>d. de_status d = StAdded) results),
             ds_sectionsRemoved = length (filter (\<lambda>d. de_status d = StRemoved) results),
             sectionsGrowth = length (filter (\<lambda>d. de_status d = StGrowth) results),
             sectionsShrink = length (filter (\<lambda>d. de_status d = StShrink) results),
             sectionsUnchanged = length (filter (\<lambda>d. de_status d = StSame) results),
             totalSizeV1 = sizeV1,
             totalSizeV2 = sizeV2,
             totalSizeDiff = sizeDiff,
             totalSizeDiffPct =
               (if sizeV1 > 0 then toFixed2 ((of_int sizeDiff / of_nat sizeV1) * 100) else 0),
             anomalyCount = length anomalies\<rparr>
      in \<lparr>dr_summary = summary,
          dr_diff = sortDescBy (\<lambda>d. \<bar>de_sizeDiff d\<bar>) results,
          dr_anomalies = sortDescBy (\<lambda>a. diffSeverityOrder (da_severity a)) anomalies,
          dr_comparedAt = now,
          dr_options = options\<rparr>)"

section \<open>Result store (\<open>compareStorage.js\<close>)\<close>

record 'r StoredComparison =
  result :: 'r
  expiresAt :: int
  createdAt :: int

text \<open>\<open>DEFAULT_TTL\<close>, 24 hours in milliseconds.\<close>

definition DEFAULT_TTL :: int where
  "DEFAULT_TTL = 24 * 60 * 60 * 1000"

text \<open>\<open>Buffer.toString('hex')\<close>: two lower-case digits for each byte.\<close>

definition hexOfByte :: "nat \<Rightarrow> string" where
  "hexOfByte b = [''0123456789abcdef'' ! (b div 16 mod 16), ''0123456789abcdef'' ! (b mod 16)]"

text \<open>
  \<open>generateCompareId\<close>, given what \<open>new Date().toISOString()\<close> and \<open>crypto.randomBytes(4)\<close>
  return.
\<close>

definition generateCompareId :: "string \<Rightarrow> nat list \<Rightarrow> string" where
  "generateCompareId isoTime randomBytes =
     (let timestamp = filter (\<lambda>c. c \<noteq> CHR ''-'') (hd (split_on CHR ''T'' isoTime));
          random = concat (map hexOfByte randomBytes)
      in ''cmp_'' @ timestamp @ ''_'' @ random)"

text \<open>
  \<open>cleanupExpired\<close>, given the value of \<open>Date.now()\<close>. The hourly timer of the module calls it
  between requests; in this model that is one more call of the function on the store.
\<close>

definition cleanupExpired ::
  "int \<Rightarrow> (string \<times> 'r StoredComparison) list \<Rightarrow> (string \<times> 'r StoredComparison) list" where
  "cleanupExpired now compareStore = filter (\<lambda>(id, entry). \<not> now > expiresAt entry) compareStore"

text \<open>
  \<open>storeComparison\<close>. The store is passed in and returned. \<open>isoTime\<close> and \<open>randomBytes\<close> feed the
  identifier; \<open>t1\<close>, \<open>t2\<close> and \<open>t3\<close> are the three readings of \<open>Date.now()\<close>, for \<open>expiresAt\<close>,
  for \<open>createdAt\<close> and inside \<open>cleanupExpired\<close>.
\<close>

definition storeComparison ::
  "string \<Rightarrow> nat list \<Rightarrow> int \<Rightarrow> int \<Rightarrow> int \<Rightarrow> 'r \<Rightarrow> int \<Rightarrow>
   (string \<times> 'r StoredComparison) list \<Rightarrow> string \<times> (string \<times> 'r StoredComparison) list" where
  "storeComparison isoTime randomBytes t1 t2 t3 compareResult ttl compareStore =
     (let compareId = generateCompareId isoTime randomBytes;
          expiresAt = t1 + ttl;
          store1 = AList.update compareId
                     \<lparr>result = compareResult, expiresAt = expiresAt, createdAt = t2\<rparr> compareStore
      in (compareId, cleanupExpired t3 store1))"

text \<open>\<open>getComparison\<close>, given the reading of \<open>Date.now()\<close>: the answer and the store afterwards.\<close>

definition getComparison ::
  "string \<Rightarrow> int \<Rightarrow> (string \<times> 'r StoredComparison) list \<Rightarrow>
   'r option \<times> (string \<times> 'r StoredComparison) list" where
  "getComparison compareId now compareStore =
     (case map_of compareStore compareId of
        None \<Rightarrow> (None, compareStore)
      | Some entry \<Rightarrow>
          if now > expiresAt entry then (None, AList.delete compareId compareStore)
          else (Some (result entry), compareStore))"

definition deleteComparison ::
  "string \<Rightarrow> (string \<times> 'r StoredComparison) list \<Rightarrow> bool \<times> (string \<times> 'r StoredComparison) list" where
  "deleteComparison compareId compareStore =
     (map_of compareStore compareId \<noteq> None, AList.delete compareId compareStore)"

section \<open>Notions used in the statements and example inputs\<close>

text \<open>The input sections that fall into the group named \<open>p\<close>.\<close>

abbreviation groupOf :: "Section list \<Rightarrow> string \<Rightarrow> Section list" where
  "groupOf secs p \<equiv> filter (\<lambda>s. parentName (sec_name s) = p) secs"

text \<open>Three sections of one object file, among them the two names of the specification.\<close>

definition exampleSections :: "Section list" where
  "exampleSections =
     [\<lparr>sec_name = ''.text.main'', sec_address = Some ''0x00000778'', sec_size = 3072, sec_filePath = Some ''main.o''\<rparr>,
      \<lparr>sec_name = ''.text.main.cold'', sec_address = Some ''0x00001378'', sec_size = 16, sec_filePath = Some ''main.o''\<rparr>,
      \<lparr>sec_name = ''.text'', sec_address = Some ''0x00000000'', sec_size = 4, sec_filePath = None\<rparr>]"

text \<open>A small map file: four section lines, one of size zero, two of equal size.\<close>

definition exampleMap :: string where
  "exampleMap =
     '' .text.a 0x100 0x10 a.o'' @ [CHR 0x0A] @
     '' .text.b 0x110 0x20 lib/b.o'' @ [CHR 0x0A] @
     '' .bss.c 0x200 0x10 c.o'' @ [CHR 0x0A] @
     '' .debug 0x0 0x0 d.o''"

text \<open>Two builds for the summary comparison; the first holds the name \<open>.text\<close> twice.\<close>

definition exampleA :: AnalysisResult where
  "exampleA =
     \<lparr>memory = [],
      sections =
        [\<lparr>sec_name = ''.text'', sec_address = Some ''0x08000000'', sec_size = 1000, sec_filePath = Some ''a.o''\<rparr>,
         \<lparr>sec_name = ''.data'', sec_address = Some ''0x20000000'', sec_size = 50, sec_filePath = None\<rparr>,
         \<lparr>sec_name = ''.bss'', sec_address = Some ''0x20000100'', sec_size = 200, sec_filePath = Some ''a.o''\<rparr>,
         \<lparr>sec_name = ''.text'', sec_address = Some ''0x08001000'', sec_size = 900, sec_filePath = Some ''b.o''\<rparr>]\<rparr>"

definition exampleB :: AnalysisResult where
  "exampleB =
     \<lparr>memory = [],
      sections =
        [\<lparr>sec_name = ''.text'', sec_address = Some ''0x08000000'', sec_size = 1200, sec_filePath = Some ''a.o''\<rparr>,
         \<lparr>sec_name = ''.data'', sec_address = Some ''0x20000000'', sec_size = 40, sec_filePath = None\<rparr>,
         \<lparr>sec_name = ''.bss'', sec_address = Some ''0x20000100'', sec_size = 100, sec_filePath = Some ''a.o''\<rparr>]\<rparr>"

text \<open>Two builds for the version diff; \<open>.bss.x\<close> of \<open>x.o\<close> exists in the second only.\<close>

definition exampleV1 :: AnalysisResult where
  "exampleV1 =
     \<lparr>memory = [],
      sections =
        [\<lparr>sec_name = ''.text'', sec_address = Some ''0x08000000'', sec_size = 1000, sec_filePath = Some ''a.o''\<rparr>,
         \<lparr>sec_name = ''.data'', sec_address = Some ''0x20000000'', sec_size = 50, sec_filePath = None\<rparr>]\<rparr>"

definition exampleV2 :: AnalysisResult where
  "exampleV2 =
     \<lparr>memory = [],
      sections =
        [\<lparr>sec_name = ''.text'', sec_address = Some ''0x08000000'', sec_size = 1200, sec_filePath = Some ''a.o''\<rparr>,
         \<lparr>sec_name = ''.bss.x'', sec_address = Some ''0x20000100'', sec_size = 2000, sec_filePath = Some ''x.o''\<rparr>]\<rparr>"

text \<open>A build with one section of size zero, and options that keep unchanged sections.\<close>

definition exampleZero :: AnalysisResult where
  "exampleZero =
     \<lparr>memory = [],
      sections =
        [\<lparr>sec_name = ''.noinit'', sec_address = Some ''0x20001000'', sec_size = 0, sec_filePath = None\<rparr>]\<rparr>"

definition keepUnchangedOptions :: CompareOptions where
  "keepUnchangedOptions =
     \<lparr>topN = 20, anomalyThresholdPct = 20, anomalyThresholdBytes = 1024,
      includeUnchanged = True\<rparr>"

section \<open>Strings, sorting and maps\<close>

lemma split_on_nonempty: "split_on c s \<noteq> []"
  by (induction s) (auto split: list.splits)

lemma join_split_on: "join_with c (split_on c s) = s"
proof (induction s)
  case Nil
  then show ?case by simp
next
  case (Cons x xs)
  show ?case
  proof (cases "x = c")
    case True
    obtain p ps where ps: "split_on c xs = p # ps"
      using split_on_nonempty[of c xs] by (cases "split_on c xs") auto
    with True Cons show ?thesis by simp
  next
    case False
    obtain p ps where ps: "split_on c xs = p # ps"
      using split_on_nonempty[of c xs] by (cases "split_on c xs") auto
    with False Cons show ?thesis by (cases ps) auto
  qed
qed

lemma split_on_hd: "hd (split_on c s) = takeWhile (\<lambda>x. x \<noteq> c) s"
  by (induction s) (auto split: list.splits simp: split_on_nonempty)

lemma takeWhile_until:
  "c \<notin> set xs \<Longrightarrow> takeWhile (\<lambda>x. x \<noteq> c) (xs @ c # ys) = xs"
  by (induction xs) auto

lemma sortDescBy_mset: "mset (sortDescBy f xs) = mset xs"
  by (simp add: sortDescBy_def)

lemma sortDescBy_set: "set (sortDescBy f xs) = set xs"
  by (simp add: sortDescBy_def)

lemma sortDescBy_sorted: "sorted_wrt (\<lambda>a b. f a \<ge> f b) (sortDescBy f xs)"
proof -
  have "sorted (map (\<lambda>x. - f x) (sortDescBy f xs))"
    unfolding sortDescBy_def by (rule sorted_sort_key)
  then show ?thesis by (simp add: sorted_map)
qed

lemma sortDescBy_stable:
  "filter (\<lambda>x. f x = k) (sortDescBy f xs) = filter (\<lambda>x. f x = k) xs"
proof -
  have "filter (\<lambda>x. - f x = - k) (sort_key (\<lambda>x. - f x) xs) = filter (\<lambda>x. - f x = - k) xs"
    by (rule sort_key_stable)
  then show ?thesis by (simp add: sortDescBy_def)
qed

lemma sortDescBy_unique:
  assumes "mset ys = mset xs"
    and "sorted_wrt (\<lambda>a b. f a \<ge> f b) ys"
    and "\<And>k. filter (\<lambda>x. f x = k) ys = filter (\<lambda>x. f x = k) xs"
  shows "ys = sortDescBy f xs"
proof -
  have "sort_key (\<lambda>x. - f x) xs = ys"
  proof (rule properties_for_sort_key)
    show "mset ys = mset xs" by (rule assms(1))
    show "sorted (map (\<lambda>x. - f x) ys)" using assms(2) by (simp add: sorted_map)
    fix k assume "k \<in> set ys"
    have "filter (\<lambda>x. f x = f k) ys = filter (\<lambda>x. f x = f k) xs" by (rule assms(3))
    moreover have "(\<lambda>x. - f k = - f x) = (\<lambda>x. f x = f k)" by auto
    ultimately show "filter (\<lambda>x. - f k = - f x) ys = filter (\<lambda>x. - f k = - f x) xs" by simp
  qed
  then show ?thesis by (simp add: sortDescBy_def)
qed

lemma slice0_nonneg: "0 \<le> e \<Longrightarrow> slice0 e xs = take (nat e) xs"
  by (auto simp: slice0_def Let_def min_def)

lemma slice0_subset: "set (slice0 e xs) \<subseteq> set xs"
  by (simp add: slice0_def Let_def set_take_subset)

lemma jsSet_fold_set:
  "set (foldl (\<lambda>acc x. if x \<in> set acc then acc else acc @ [x]) acc xs) = set acc \<union> set xs"
  by (induction xs arbitrary: acc) auto

lemma jsSet_fold_distinct:
  "distinct acc \<Longrightarrow> distinct (foldl (\<lambda>acc x. if x \<in> set acc then acc else acc @ [x]) acc xs)"
  by (induction xs arbitrary: acc) auto

lemma jsSet_set: "set (jsSet xs) = set xs"
  by (simp add: jsSet_def jsSet_fold_set)

lemma jsSet_distinct: "distinct (jsSet xs)"
  by (simp add: jsSet_def jsSet_fold_distinct)

lemma map_filter_set: "set (List.map_filter f xs) = {y. \<exists>x \<in> set xs. f x = Some y}"
  by (induction xs) (auto simp: map_filter_simps split: option.splits)

lemma map_filter_keys:
  "(\<And>x y. f x = Some y \<Longrightarrow> g y = x) \<Longrightarrow>
   map g (List.map_filter f xs) = filter (\<lambda>x. f x \<noteq> None) xs"
  by (induction xs) (auto simp: map_filter_simps split: option.splits)

lemma map_filter_empty: "(\<And>x. x \<in> set xs \<Longrightarrow> f x = None) \<Longrightarrow> List.map_filter f xs = []"
  by (induction xs) (auto simp: map_filter_simps)

lemma map_of_filter_keep:
  "map_of xs k = Some v \<Longrightarrow> P (k, v) \<Longrightarrow> map_of (filter P xs) k = Some v"
  by (induction xs) (auto split: if_splits)

lemma sum_list_mset_cong:
  "mset xs = mset ys \<Longrightarrow> sum_list (map f xs) = (sum_list (map f ys) :: nat)"
  by (metis mset_map sum_mset_sum_list)

lemma foldl_sum_sizes:
  "foldl (\<lambda>sum s. sum + f s) (a::nat) xs = a + sum_list (map f xs)"
  by (induction xs arbitrary: a) auto

lemma toFixed2_0: "toFixed2 0 = 0"
  by (simp add: toFixed2_def)

lemma toFixed2_100: "toFixed2 100 = 100"
  by code_simp

section \<open>The parser keeps positive sizes in a stable decreasing order\<close>

lemma sectionOfLine_positive: "sectionOfLine line = Some s \<Longrightarrow> sec_size s > 0"
  by (auto simp: sectionOfLine_def Let_def split: option.splits prod.splits JsNum.splits if_splits)

lemma scanSections_positive: "s \<in> set (scanSections content) \<Longrightarrow> sec_size s > 0"
  by (auto simp: scanSections_def map_filter_set dest: sectionOfLine_positive)

lemma parse_sections_eq:
  "sections (parseMapFile content) = sortDescBy (\<lambda>s. int (sec_size s)) (scanSections content)"
  by (simp add: parseMapFile_def)

text \<open>
  C4. For every input text, every section of the parsed result has a size above zero (a match
  of size zero is dropped), and the list is the matches of the scan ordered by decreasing
  size with sections of equal size kept in scan order. The result is the only arrangement of
  the scanned sections with these properties, so a parse of the same text always gives the
  same list.
\<close>

theorem parse_sections_sorted_stable:
  "(\<forall>s \<in> set (sections (parseMapFile content)). sec_size s > 0)
   \<and> sorted_wrt (\<lambda>a b. sec_size a \<ge> sec_size b) (sections (parseMapFile content))
   \<and> mset (sections (parseMapFile content)) = mset (scanSections content)
   \<and> (\<forall>k. filter (\<lambda>s. sec_size s = k) (sections (parseMapFile content)) =
            filter (\<lambda>s. sec_size s = k) (scanSections content))
   \<and> (\<forall>ys. mset ys = mset (scanSections content)
          \<and> sorted_wrt (\<lambda>a b. sec_size a \<ge> sec_size b) ys
          \<and> (\<forall>k. filter (\<lambda>s. sec_size s = k) ys = filter (\<lambda>s. sec_size s = k) (scanSections content))
        \<longrightarrow> ys = sections (parseMapFile content))"
proof -
  let ?out = "sections (parseMapFile content)"
  let ?scan = "scanSections content"
  have p: "\<forall>s \<in> set ?out. sec_size s > 0"
    by (simp add: parse_sections_eq sortDescBy_set scanSections_positive)
  have "sorted_wrt (\<lambda>a b. int (sec_size a) \<ge> int (sec_size b)) ?out"
    unfolding parse_sections_eq by (rule sortDescBy_sorted)
  then have s: "sorted_wrt (\<lambda>a b. sec_size a \<ge> sec_size b) ?out" by simp
  have m: "mset ?out = mset ?scan" by (simp add: parse_sections_eq sortDescBy_mset)
  have st: "\<forall>k. filter (\<lambda>s. sec_size s = k) ?out = filter (\<lambda>s. sec_size s = k) ?scan"
  proof
    fix k
    have "filter (\<lambda>s. int (sec_size s) = int k) ?out = filter (\<lambda>s. int (sec_size s) = int k) ?scan"
      unfolding parse_sections_eq by (rule sortDescBy_stable)
    then show "filter (\<lambda>s. sec_size s = k) ?out = filter (\<lambda>s. sec_size s = k) ?scan" by simp
  qed
  have u: "\<forall>ys. mset ys = mset ?scan
          \<and> sorted_wrt (\<lambda>a b. sec_size a \<ge> sec_size b) ys
          \<and> (\<forall>k. filter (\<lambda>s. sec_size s = k) ys = filter (\<lambda>s. sec_size s = k) ?scan)
        \<longrightarrow> ys = ?out"
  proof (intro allI impI)
    fix ys
    assume h: "mset ys = mset ?scan
          \<and> sorted_wrt (\<lambda>a b. sec_size a \<ge> sec_size b) ys
          \<and> (\<forall>k. filter (\<lambda>s. sec_size s = k) ys = filter (\<lambda>s. sec_size s = k) ?scan)"
    have "ys = sortDescBy (\<lambda>s. int (sec_size s)) ?scan"
    proof (rule sortDescBy_unique)
      show "mset ys = mset ?scan" using h by simp
      show "sorted_wrt (\<lambda>a b. int (sec_size a) \<ge> int (sec_size b)) ys" using h by simp
      fix k :: int
      show "filter (\<lambda>x. int (sec_size x) = k) ys = filter (\<lambda>x. int (sec_size x) = k) ?scan"
      proof (cases "k \<ge> 0")
        case True
        then have e: "(\<lambda>x. int (sec_size x) = k) = (\<lambda>x. sec_size x = nat k)" by auto
        from h have "filter (\<lambda>s. sec_size s = nat k) ys =
            filter (\<lambda>s. sec_size s = nat k) ?scan" by blast
        then show ?thesis unfolding e .
      next
        case False
        then have e: "(\<lambda>x. int (sec_size x) = k) = (\<lambda>x. False)" by auto
        show ?thesis unfolding e by simp
      qed
    qed
    then show "ys = ?out" by (simp add: parse_sections_eq)
  qed
  from p s m st u show ?thesis by blast
qed

lemma example_scan:
  "scanSections exampleMap =
     [\<lparr>sec_name = ''.text.a'', sec_address = Some ''0x100'', sec_size = 16, sec_filePath = Some ''a.o''\<rparr>,
      \<lparr>sec_name = ''.text.b'', sec_address = Some ''0x110'', sec_size = 32, sec_filePath = Some ''b.o''\<rparr>,
      \<lparr>sec_name = ''.bss.c'', sec_address = Some ''0x200'', sec_size = 16, sec_filePath = Some ''c.o''\<rparr>]"
  by code_simp

text \<open>
  The example map file: the zero-size line is dropped, the largest section comes first and
  the two sections of size 16 stay in the order of their lines.
\<close>

theorem parse_sections_sorted_stable_witness:
  "sections (parseMapFile exampleMap) =
     [\<lparr>sec_name = ''.text.b'', sec_address = Some ''0x110'', sec_size = 32, sec_filePath = Some ''b.o''\<rparr>,
      \<lparr>sec_name = ''.text.a'', sec_address = Some ''0x100'', sec_size = 16, sec_filePath = Some ''a.o''\<rparr>,
      \<lparr>sec_name = ''.bss.c'', sec_address = Some ''0x200'', sec_size = 16, sec_filePath = Some ''c.o''\<rparr>]
   \<and> sorted_wrt (\<lambda>a b. sec_size a \<ge> sec_size b) (sections (parseMapFile exampleMap))
   \<and> mset (sections (parseMapFile exampleMap)) = mset (scanSections exampleMap)
   \<and> filter (\<lambda>s. sec_size s = 16) (sections (parseMapFile exampleMap)) =
       filter (\<lambda>s. sec_size s = 16) (scanSections exampleMap)"
proof -
  have a: "sections (parseMapFile exampleMap) =
     [\<lparr>sec_name = ''.text.b'', sec_address = Some ''0x110'', sec_size = 32, sec_filePath = Some ''b.o''\<rparr>,
      \<lparr>sec_name = ''.text.a'', sec_address = Some ''0x100'', sec_size = 16, sec_filePath = Some ''a.o''\<rparr>,
      \<lparr>sec_name = ''.bss.c'', sec_address = Some ''0x200'', sec_size = 16, sec_filePath = Some ''c.o''\<rparr>]"
    unfolding parse_sections_eq example_scan by (simp add: sortDescBy_def)
  from a parse_sections_sorted_stable[of exampleMap] show ?thesis by blast
qed

section \<open>Aggregation by parent name\<close>

lemma parentName_dot:
  "parentName (CHR ''.'' # r) = CHR ''.'' # takeWhile (\<lambda>x. x \<noteq> CHR ''.'') r"
proof -
  obtain p ps where ps: "split_on CHR ''.'' r = p # ps"
    using split_on_nonempty[of "CHR ''.''" r] by (cases "split_on CHR ''.'' r") auto
  have "p = takeWhile (\<lambda>x. x \<noteq> CHR ''.'') r"
    using split_on_hd[of "CHR ''.''" r] ps by simp
  then show ?thesis by (simp add: parentName_def ps)
qed

lemma parentNameFe_eq: "parentNameFe n = parentName n"
proof (cases "length (split_on CHR ''.'' n) > 2")
  case True
  then show ?thesis by (simp add: parentNameFe_def parentName_def)
next
  case False
  then have "take 2 (split_on CHR ''.'' n) = split_on CHR ''.'' n" by simp
  then show ?thesis using False by (simp add: parentNameFe_def parentName_def join_split_on)
qed

lemma aggregate_fold_lookup:
  "map_of (foldl aggregateStep m secs) p =
     (case map_of m p of
        Some e \<Rightarrow> Some (e\<lparr>ag_size := ag_size e + sum_list (map sec_size (groupOf secs p)),
                           ag_subsections := ag_subsections e + length (groupOf secs p)\<rparr>)
      | None \<Rightarrow> if groupOf secs p = [] then None
                else Some \<lparr>ag_name = p, ag_size = sum_list (map sec_size (groupOf secs p)),
                            ag_subsections = length (groupOf secs p), ag_filePath = None\<rparr>)"
proof (induction secs arbitrary: m)
  case Nil
  then show ?case by (simp split: option.splits)
next
  case (Cons s secs)
  show ?case
    unfolding foldl_Cons Cons.IH
    by (auto simp: aggregateStep_def Let_def update_conv' split: option.splits)
qed

lemma aggregate_fold_distinct:
  "distinct (map fst m) \<Longrightarrow> distinct (map fst (foldl aggregateStep m secs))"
  by (induction secs arbitrary: m)
     (auto simp: aggregateStep_def Let_def distinct_update split: option.splits)

lemma aggregateSections_mset:
  "mset (aggregateSections secs) = mset (map snd (foldl aggregateStep [] secs))"
  by (simp add: aggregateSections_def sortDescBy_def)

lemma aggregateSections_set:
  "set (aggregateSections secs) = snd ` set (foldl aggregateStep [] secs)"
  by (simp add: aggregateSections_def sortDescBy_def)

lemma aggregate_member_iff:
  "g \<in> set (aggregateSections secs) \<longleftrightarrow>
     (groupOf secs (ag_name g) \<noteq> [] \<and>
      g = \<lparr>ag_name = ag_name g, ag_size = sum_list (map sec_size (groupOf secs (ag_name g))),
           ag_subsections = length (groupOf secs (ag_name g)), ag_filePath = None\<rparr>)"
proof -
  let ?m = "foldl aggregateStep [] secs"
  have d: "distinct (map fst ?m)" by (rule aggregate_fold_distinct) simp
  have look: "\<And>p. map_of ?m p =
       (if groupOf secs p = [] then None
        else Some \<lparr>ag_name = p, ag_size = sum_list (map sec_size (groupOf secs p)),
                    ag_subsections = length (groupOf secs p), ag_filePath = None\<rparr>)"
    by (simp add: aggregate_fold_lookup)
  have mem: "\<And>k v. (k, v) \<in> set ?m \<longleftrightarrow> map_of ?m k = Some v"
    using d by simp
  show ?thesis
  proof
    assume "g \<in> set (aggregateSections secs)"
    then obtain k where "(k, g) \<in> set ?m" by (auto simp: aggregateSections_set)
    then have "map_of ?m k = Some g" by (simp add: mem)
    then show "groupOf secs (ag_name g) \<noteq> [] \<and>
      g = \<lparr>ag_name = ag_name g, ag_size = sum_list (map sec_size (groupOf secs (ag_name g))),
           ag_subsections = length (groupOf secs (ag_name g)), ag_filePath = None\<rparr>"
      by (auto simp: look split: if_splits)
  next
    assume a: "groupOf secs (ag_name g) \<noteq> [] \<and>
      g = \<lparr>ag_name = ag_name g, ag_size = sum_list (map sec_size (groupOf secs (ag_name g))),
           ag_subsections = length (groupOf secs (ag_name g)), ag_filePath = None\<rparr>"
    then have "map_of ?m (ag_name g) = Some g" by (simp add: look)
    then have "(ag_name g, g) \<in> set ?m" by (simp add: mem)
    then show "g \<in> set (aggregateSections secs)"
      by (force simp: aggregateSections_set)
  qed
qed

lemma aggregate_names_distinct: "distinct (map ag_name (aggregateSections secs))"
proof -
  let ?m = "foldl aggregateStep [] secs"
  have d: "distinct (map fst ?m)" by (rule aggregate_fold_distinct) simp
  have "\<And>k v. (k, v) \<in> set ?m \<Longrightarrow> ag_name v = k"
  proof -
    fix k v assume "(k, v) \<in> set ?m"
    then have "map_of ?m k = Some v" using d by simp
    then show "ag_name v = k" by (auto simp: aggregate_fold_lookup split: if_splits)
  qed
  then have eq: "map (ag_name \<circ> snd) ?m = map fst ?m"
    by (intro map_cong[OF refl]) auto
  have "distinct (map ag_name (map snd ?m))"
    unfolding map_map eq by (rule d)
  moreover have "mset (map ag_name (aggregateSections secs)) = mset (map ag_name (map snd ?m))"
    unfolding mset_map aggregateSections_mset ..
  ultimately show ?thesis by (metis mset_eq_imp_distinct_iff)
qed

lemma aggregate_names_set:
  "set (map ag_name (aggregateSections secs)) = (\<lambda>s. parentName (sec_name s)) ` set secs"
proof (rule set_eqI)
  fix p
  have "p \<in> set (map ag_name (aggregateSections secs)) \<longleftrightarrow> groupOf secs p \<noteq> []"
  proof
    assume "p \<in> set (map ag_name (aggregateSections secs))"
    then obtain g where g: "g \<in> set (aggregateSections secs)" "ag_name g = p" by auto
    from g(1) have "groupOf secs (ag_name g) \<noteq> []"
      by (subst (asm) aggregate_member_iff) simp
    with g(2) show "groupOf secs p \<noteq> []" by simp
  next
    assume ne: "groupOf secs p \<noteq> []"
    define g where "g = \<lparr>ag_name = p, ag_size = sum_list (map sec_size (groupOf secs p)),
           ag_subsections = length (groupOf secs p), ag_filePath = None\<rparr>"
    have "g \<in> set (aggregateSections secs)"
      by (subst aggregate_member_iff) (simp add: g_def ne)
    moreover have "ag_name g = p" by (simp add: g_def)
    ultimately show "p \<in> set (map ag_name (aggregateSections secs))" by force
  qed
  also have "\<dots> \<longleftrightarrow> p \<in> (\<lambda>s. parentName (sec_name s)) ` set secs"
    by (auto simp: filter_empty_conv)
  finally show "p \<in> set (map ag_name (aggregateSections secs)) \<longleftrightarrow>
     p \<in> (\<lambda>s. parentName (sec_name s)) ` set secs" .
qed

lemma update_sum_sizes:
  "distinct (map fst m) \<Longrightarrow> map_of m k = Some e \<Longrightarrow>
   sum_list (map (f \<circ> snd) (AList.update k e' m)) + f e = sum_list (map (f \<circ> snd) m) + (f e' :: nat)"
  by (induction m) (auto)

lemma update_sum_sizes_new:
  "map_of m k = None \<Longrightarrow>
   sum_list (map (f \<circ> snd) (AList.update k e' m)) = sum_list (map (f \<circ> snd) m) + (f e' :: nat)"
  by (induction m) (auto)

lemma aggregate_fold_sum:
  "distinct (map fst m) \<Longrightarrow>
   sum_list (map (ag_size \<circ> snd) (foldl aggregateStep m secs)) =
     sum_list (map (ag_size \<circ> snd) m) + sum_list (map sec_size secs)"
proof (induction secs arbitrary: m)
  case Nil
  then show ?case by simp
next
  case (Cons s secs)
  have d: "distinct (map fst (aggregateStep m s))"
    using Cons.prems by (auto simp: aggregateStep_def Let_def distinct_update split: option.splits)
  have step: "sum_list (map (ag_size \<circ> snd) (aggregateStep m s)) =
      sum_list (map (ag_size \<circ> snd) m) + sec_size s"
  proof (cases "map_of m (parentName (sec_name s))")
    case None
    then show ?thesis
      by (simp add: aggregateStep_def Let_def update_sum_sizes_new[where f = ag_size])
  next
    case (Some e)
    then show ?thesis
      using update_sum_sizes[OF Cons.prems Some, where f = ag_size
          and e' = "e\<lparr>ag_size := ag_size e + sec_size s,
                        ag_subsections := ag_subsections e + 1\<rparr>"]
      by (simp add: aggregateStep_def Let_def)
  qed
  show ?case
    unfolding foldl_Cons Cons.IH[OF d] step by (simp add: comp_def)
qed

lemma aggregate_sum:
  "sum_list (map ag_size (aggregateSections secs)) = sum_list (map sec_size secs)"
proof -
  have "mset (aggregateSections secs) = mset (map snd (foldl aggregateStep [] secs))"
    by (simp add: aggregateSections_def sortDescBy_def)
  then have "sum_list (map ag_size (aggregateSections secs)) =
        sum_list (map ag_size (map snd (foldl aggregateStep [] secs)))"
    by (rule sum_list_mset_cong)
  also have "\<dots> = sum_list (map sec_size secs)"
    using aggregate_fold_sum[of "[]" secs] by simp
  finally show ?thesis .
qed

lemma example_aggregate:
  "aggregateSections exampleSections =
     [\<lparr>ag_name = ''.text'', ag_size = 3092, ag_subsections = 3, ag_filePath = None\<rparr>]"
  by (simp add: exampleSections_def aggregateSections_def sortDescBy_def aggregateStep_def
      parentName_def Let_def)

lemma example_aggregate_fe:
  "map fe_name (aggregateSectionsFe exampleSections) = [''.text'']"
  by (simp add: exampleSections_def aggregateSectionsFe_def sortDescBy_def aggregateStepFe_def
      parentNameFe_def Let_def)

text \<open>
  C1, as the code has it. \<open>aggregateSections\<close> groups the entries by \<open>parentName\<close>, the first
  two elements of \<open>name.split('.')\<close> joined again. For a name that starts with a dot the first
  element is empty, so the group is the dot and the first named segment: \<open>.text.main\<close>,
  \<open>.text.main.cold\<close> and \<open>.text\<close> all fall into the group \<open>.text\<close>. The output has one entry for
  each parent name; its size is the sum and its \<open>subsections\<close> the number of the input sections
  with that parent name, and its file path is \<open>null\<close>. The dashboard's copy forms the same
  group names.
\<close>

theorem aggregate_groups_by_parentName:
  "set (map ag_name (aggregateSections secs)) = (\<lambda>s. parentName (sec_name s)) ` set secs
   \<and> distinct (map ag_name (aggregateSections secs))
   \<and> (\<forall>g \<in> set (aggregateSections secs).
        ag_size g = sum_list (map sec_size (groupOf secs (ag_name g)))
      \<and> ag_subsections g = length (groupOf secs (ag_name g))
      \<and> ag_filePath g = None)
   \<and> parentName (CHR ''.'' # r) = CHR ''.'' # takeWhile (\<lambda>c. c \<noteq> CHR ''.'') r
   \<and> parentName ''.text.main'' = ''.text''
   \<and> parentName ''.text.main.cold'' = ''.text''
   \<and> parentName ''.text'' = ''.text''
   \<and> parentNameFe n = parentName n"
proof -
  have g: "\<forall>g \<in> set (aggregateSections secs).
        ag_size g = sum_list (map sec_size (groupOf secs (ag_name g)))
      \<and> ag_subsections g = length (groupOf secs (ag_name g))
      \<and> ag_filePath g = None"
  proof
    fix g assume "g \<in> set (aggregateSections secs)"
    then have "g = \<lparr>ag_name = ag_name g, ag_size = sum_list (map sec_size (groupOf secs (ag_name g))),
           ag_subsections = length (groupOf secs (ag_name g)), ag_filePath = None\<rparr>"
      by (subst (asm) aggregate_member_iff) simp
    then show "ag_size g = sum_list (map sec_size (groupOf secs (ag_name g)))
      \<and> ag_subsections g = length (groupOf secs (ag_name g))
      \<and> ag_filePath g = None"
      by (metis AggregatedSection.select_convs(2,3,4))
  qed
  have p: "parentName ''.text.main'' = ''.text'' \<and> parentName ''.text.main.cold'' = ''.text''
      \<and> parentName ''.text'' = ''.text''"
    by (simp add: parentName_dot)
  show ?thesis
    using aggregate_names_set[of secs] aggregate_names_distinct[of secs] g
      parentName_dot[of r] p parentNameFe_eq[of n]
    by blast
qed

text \<open>The three example sections form the single group \<open>.text\<close> with three subsections.\<close>

theorem aggregate_groups_by_parentName_witness:
  "map ag_name (aggregateSections exampleSections) = [''.text'']
   \<and> set (map ag_name (aggregateSections exampleSections)) =
       (\<lambda>s. parentName (sec_name s)) ` set exampleSections
   \<and> distinct (map ag_name (aggregateSections exampleSections))
   \<and> map ag_size (aggregateSections exampleSections) = [3092]
   \<and> map ag_subsections (aggregateSections exampleSections) = [3]"
proof -
  have a: "map ag_name (aggregateSections exampleSections) = [''.text'']"
    by (simp add: example_aggregate)
  have b: "map ag_size (aggregateSections exampleSections) = [3092]
      \<and> map ag_subsections (aggregateSections exampleSections) = [3]"
    by (simp add: example_aggregate)
  from a b aggregate_groups_by_parentName[of exampleSections] show ?thesis by blast
qed

text \<open>
  On the example sections no group is named \<open>.text.main\<close>: both copies of the function return
  the one group \<open>.text\<close>.
\<close>

theorem aggregate_text_main_counterexample:
  "map ag_name (aggregateSections exampleSections) = [''.text'']
   \<and> ''.text.main'' \<notin> set (map ag_name (aggregateSections exampleSections))
   \<and> parentName ''.text.main.cold'' \<noteq> ''.text.main''
   \<and> map fe_name (aggregateSectionsFe exampleSections) = [''.text'']"
  by (simp add: example_aggregate example_aggregate_fe parentName_dot)

text \<open>
  C6. For every list of sections, the sizes of the aggregated output add up to the sizes of
  the input.
\<close>

theorem aggregate_preserves_total_size:
  "sum_list (map ag_size (aggregateSections secs)) = sum_list (map sec_size secs)"
  by (rule aggregate_sum)

text \<open>The example sections: 3072 + 16 + 4 bytes before and after.\<close>

theorem aggregate_preserves_total_size_witness:
  "sum_list (map ag_size (aggregateSections exampleSections)) = 3092
   \<and> sum_list (map sec_size exampleSections) = 3092"
proof -
  have "sum_list (map sec_size exampleSections) = 3092" by (simp add: exampleSections_def)
  with aggregate_preserves_total_size[of exampleSections] show ?thesis by simp
qed

section \<open>Summary comparison\<close>

lemma byName_fold_lookup:
  "map_of (foldl (\<lambda>m s. AList.update (sec_name s) s m) m0 secs) n =
     (case find (\<lambda>s. sec_name s = n) (rev secs) of Some s \<Rightarrow> Some s | None \<Rightarrow> map_of m0 n)"
  by (induction secs rule: rev_induct) (auto simp: update_conv')

lemma sectionsByName_lookup:
  "map_of (sectionsByName secs) n = find (\<lambda>s. sec_name s = n) (rev secs)"
  by (simp add: sectionsByName_def byName_fold_lookup split: option.splits)

lemma sectionDiffs_member:
  "d \<in> set (sectionDiffs A B opts) \<longleftrightarrow>
     (\<exists>nm \<in> set (allSectionNames A B).
        sectionDiffOf (includeUnchanged opts) (sectionsByName (sections A))
          (sectionsByName (sections B)) nm = Some d)"
  by (auto simp: sectionDiffs_def map_filter_set)

lemma sectionDiffOf_name: "sectionDiffOf u mA mB nm = Some d \<Longrightarrow> sd_name d = nm"
  by (auto simp: sectionDiffOf_def Let_def split: if_splits)

lemma sectionDiffs_names:
  "map sd_name (sectionDiffs A B opts) =
     filter (\<lambda>nm. sectionDiffOf (includeUnchanged opts) (sectionsByName (sections A))
          (sectionsByName (sections B)) nm \<noteq> None) (allSectionNames A B)"
  unfolding sectionDiffs_def
  by (rule map_filter_keys) (rule sectionDiffOf_name)

lemma sectionDiffs_distinct: "distinct (map sd_name (sectionDiffs A B opts))"
  by (simp add: sectionDiffs_names allSectionNames_def jsSet_distinct)

lemma sectionDiffOf_sizes:
  "sectionDiffOf u mA mB nm = Some d \<Longrightarrow>
     sd_sizeA d = (case map_of mA nm of Some a \<Rightarrow> sec_size a | None \<Rightarrow> 0) \<and>
     sd_sizeB d = (case map_of mB nm of Some b \<Rightarrow> sec_size b | None \<Rightarrow> 0) \<and>
     sd_delta d = int (sd_sizeB d) - int (sd_sizeA d)"
  by (auto simp: sectionDiffOf_def Let_def split: if_splits)

lemma sectionDiffOf_status:
  "sectionDiffOf u mA mB nm = Some d \<Longrightarrow>
     (sd_status d = Added \<longleftrightarrow> sd_sizeA d = 0) \<and>
     (sd_status d = Removed \<longleftrightarrow> sd_sizeB d = 0 \<and> sd_sizeA d > 0) \<and>
     (sd_status d = Modified \<longleftrightarrow> sd_sizeA d > 0 \<and> sd_sizeB d > 0)"
  by (auto simp: sectionDiffOf_def Let_def split: if_splits)

lemma sectionDiffOf_pct:
  "sectionDiffOf u mA mB nm = Some d \<Longrightarrow>
     (sd_sizeA d = 0 \<and> sd_sizeB d > 0 \<longrightarrow> sd_deltaPct d = 100) \<and>
     (sd_sizeA d = 0 \<and> sd_sizeB d = 0 \<longrightarrow> sd_deltaPct d = 0)"
  by (auto simp: sectionDiffOf_def Let_def toFixed2_0 toFixed2_100 split: if_splits)

lemma sectionDiffOf_same:
  "sectionDiffOf False m m nm = None"
  by (simp add: sectionDiffOf_def Let_def)

lemma sectionDiffs_same:
  "\<not> includeUnchanged opts \<Longrightarrow> sectionDiffs A A opts = []"
  unfolding sectionDiffs_def
  by (rule map_filter_empty) (simp add: sectionDiffOf_same)

lemma computeFileGroups_Nil: "computeFileGroups [] = []"
  by (simp add: computeFileGroups_def sortDescBy_def)

lemma detectAnomalies_Nil:
  "0 \<le> tb \<Longrightarrow> detectAnomalies [] [] tp tb = []"
  by (simp add: detectAnomalies_def bssAnomaly_def Let_def)

lemma cr_sections_eq:
  "cr_sections (compareAnalyses now A B opts) = sortDescBy (\<lambda>s. \<bar>sd_delta s\<bar>) (sectionDiffs A B opts)"
  by (simp add: compareAnalyses_def Let_def)

lemma cr_anomalies_eq:
  "cr_anomalies (compareAnalyses now A B opts) =
     detectAnomalies (sectionDiffs A B opts) (computeFileGroups (sectionDiffs A B opts))
       (anomalyThresholdPct opts) (anomalyThresholdBytes opts)"
  by (simp add: compareAnalyses_def Let_def)

lemma cr_topIncreases_eq:
  "cr_topIncreases (compareAnalyses now A B opts) =
     slice0 (topN opts) (filter (\<lambda>s. sd_delta s > 0) (sortDescBy sd_delta (sectionDiffs A B opts)))"
  by (simp add: compareAnalyses_def Let_def)

lemma cr_topDecreases_eq:
  "cr_topDecreases (compareAnalyses now A B opts) =
     slice0 (topN opts) (rev (filter (\<lambda>s. sd_delta s < 0) (sortDescBy sd_delta (sectionDiffs A B opts))))"
  by (simp add: compareAnalyses_def Let_def)

lemma cr_summary_totals:
  "totalSectionsA (cr_summary (compareAnalyses now A B opts)) = length (sections A) \<and>
   totalSectionsB (cr_summary (compareAnalyses now A B opts)) = length (sections B) \<and>
   totalFlashA (cr_summary (compareAnalyses now A B opts)) = totalFlash (sections A) \<and>
   totalFlashB (cr_summary (compareAnalyses now A B opts)) = totalFlash (sections B) \<and>
   totalRamA (cr_summary (compareAnalyses now A B opts)) = totalRam (sections A) \<and>
   totalRamB (cr_summary (compareAnalyses now A B opts)) = totalRam (sections B)"
  by (simp add: compareAnalyses_def Let_def)

lemma sectionDiffs_topN: "sectionDiffs A B (opts\<lparr>topN := n\<rparr>) = sectionDiffs A B opts"
  by (simp add: sectionDiffs_def)

lemma example_sectionDiffs:
  "sectionDiffs exampleA exampleB defaultCompareOptions =
     [\<lparr>sd_name = ''.text'', sd_file = Some ''a.o'', sd_addressA = Some ''0x08001000'',
       sd_addressB = Some ''0x08000000'', sd_sizeA = 900, sd_sizeB = 1200, sd_delta = 300,
       sd_deltaPct = 3333 / 100, sd_status = Modified\<rparr>,
      \<lparr>sd_name = ''.data'', sd_file = None, sd_addressA = Some ''0x20000000'',
       sd_addressB = Some ''0x20000000'', sd_sizeA = 50, sd_sizeB = 40, sd_delta = - 10,
       sd_deltaPct = - 20, sd_status = Modified\<rparr>,
      \<lparr>sd_name = ''.bss'', sd_file = Some ''a.o'', sd_addressA = Some ''0x20000100'',
       sd_addressB = Some ''0x20000100'', sd_sizeA = 200, sd_sizeB = 100, sd_delta = - 100,
       sd_deltaPct = - 50, sd_status = Modified\<rparr>]"
  by code_simp

lemma example_topDecreases:
  "map sd_delta (cr_topDecreases (compareAnalyses ''2025-10-06T00:00:00.000Z'' exampleA exampleB defaultCompareOptions)) = [- 100, - 10]"
  unfolding cr_topDecreases_eq example_sectionDiffs
  by (simp add: sortDescBy_def slice0_def defaultCompareOptions_def)

lemma example_topDecreases_negative:
  "map sd_delta (cr_topDecreases (compareAnalyses ''2025-10-06T00:00:00.000Z'' exampleA exampleB
      (defaultCompareOptions\<lparr>topN := - 1\<rparr>))) = [- 100]"
  unfolding cr_topDecreases_eq sectionDiffs_topN example_sectionDiffs
  by (simp add: sortDescBy_def slice0_def)

lemma sorted_wrt_neg_flip:
  "sorted_wrt (\<lambda>a b. f a \<ge> (f b :: int)) xs \<Longrightarrow> sorted_wrt (\<lambda>a b. f a \<le> f b) (rev xs)"
  by (simp add: sorted_wrt_rev)

text \<open>
  C5. For every section diff that \<open>compareAnalyses\<close> returns (in \<open>sections\<close>, \<open>topIncreases\<close> or
  \<open>topDecreases\<close>): the status is \<open>added\<close> exactly when \<open>sizeA\<close> is 0, \<open>removed\<close> exactly when
  \<open>sizeB\<close> is 0 and \<open>sizeA\<close> is above 0, and \<open>modified\<close> otherwise; \<open>deltaPct\<close> is 100 when
  \<open>sizeA\<close> is 0 and \<open>sizeB\<close> is above 0, and 0 when both sizes are 0.
\<close>

theorem compare_status_deltaPct:
  "\<forall>d \<in> set (cr_sections (compareAnalyses now A B opts))
          \<union> set (cr_topIncreases (compareAnalyses now A B opts))
          \<union> set (cr_topDecreases (compareAnalyses now A B opts)).
     (sd_status d = Added \<longleftrightarrow> sd_sizeA d = 0) \<and>
     (sd_status d = Removed \<longleftrightarrow> sd_sizeB d = 0 \<and> sd_sizeA d > 0) \<and>
     (sd_status d = Modified \<longleftrightarrow> \<not> sd_sizeA d = 0 \<and> \<not> (sd_sizeB d = 0 \<and> sd_sizeA d > 0)) \<and>
     (sd_sizeA d = 0 \<and> sd_sizeB d > 0 \<longrightarrow> sd_deltaPct d = 100) \<and>
     (sd_sizeA d = 0 \<and> sd_sizeB d = 0 \<longrightarrow> sd_deltaPct d = 0)"
proof
  fix d
  assume "d \<in> set (cr_sections (compareAnalyses now A B opts))
          \<union> set (cr_topIncreases (compareAnalyses now A B opts))
          \<union> set (cr_topDecreases (compareAnalyses now A B opts))"
  then have "d \<in> set (sectionDiffs A B opts)"
    using slice0_subset[of "topN opts"]
    by (auto simp: cr_sections_eq cr_topIncreases_eq cr_topDecreases_eq sortDescBy_set
        dest!: subsetD[OF slice0_subset])
  then obtain nm where nm: "sectionDiffOf (includeUnchanged opts) (sectionsByName (sections A))
          (sectionsByName (sections B)) nm = Some d"
    by (auto simp: sectionDiffs_member)
  show "(sd_status d = Added \<longleftrightarrow> sd_sizeA d = 0) \<and>
     (sd_status d = Removed \<longleftrightarrow> sd_sizeB d = 0 \<and> sd_sizeA d > 0) \<and>
     (sd_status d = Modified \<longleftrightarrow> \<not> sd_sizeA d = 0 \<and> \<not> (sd_sizeB d = 0 \<and> sd_sizeA d > 0)) \<and>
     (sd_sizeA d = 0 \<and> sd_sizeB d > 0 \<longrightarrow> sd_deltaPct d = 100) \<and>
     (sd_sizeA d = 0 \<and> sd_sizeB d = 0 \<longrightarrow> sd_deltaPct d = 0)"
    using sectionDiffOf_status[OF nm] sectionDiffOf_pct[OF nm] by auto
qed

text \<open>
  Two comparisons: one with an added, a modified and a removed section, and one that keeps
  unchanged sections and meets a section whose size is 0 on both sides.
\<close>

theorem compare_status_deltaPct_witness:
  "map (\<lambda>d. (sd_name d, sd_sizeA d, sd_sizeB d, sd_status d, sd_deltaPct d))
     (cr_sections (compareAnalyses ''2025-10-06T00:00:00.000Z'' exampleV1 exampleV2 defaultCompareOptions))
     = [(''.bss.x'', 0, 2000, Added, 100), (''.text'', 1000, 1200, Modified, 20),
        (''.data'', 50, 0, Removed, - 100)]
   \<and> map (\<lambda>d. (sd_name d, sd_sizeA d, sd_sizeB d, sd_status d, sd_deltaPct d))
     (cr_sections (compareAnalyses ''2025-10-06T00:00:00.000Z'' exampleZero exampleV1 keepUnchangedOptions))
     = [(''.text'', 0, 1000, Added, 100), (''.data'', 0, 50, Added, 100),
        (''.noinit'', 0, 0, Added, 0)]
   \<and> list_all (\<lambda>d. (sd_status d = Added) = (sd_sizeA d = 0)
                   \<and> (sd_status d = Removed) = (sd_sizeB d = 0 \<and> sd_sizeA d > 0))
        (cr_sections (compareAnalyses ''2025-10-06T00:00:00.000Z'' exampleV1 exampleV2 defaultCompareOptions))"
proof -
  have e: "map (\<lambda>d. (sd_name d, sd_sizeA d, sd_sizeB d, sd_status d, sd_deltaPct d))
     (sortDescBy (\<lambda>s. \<bar>sd_delta s\<bar>) (sectionDiffs exampleV1 exampleV2 defaultCompareOptions))
     = [(''.bss.x'', 0, 2000, Added, 100), (''.text'', 1000, 1200, Modified, 20),
        (''.data'', 50, 0, Removed, - 100)]"
    by code_simp
  have z: "map (\<lambda>d. (sd_name d, sd_sizeA d, sd_sizeB d, sd_status d, sd_deltaPct d))
     (sortDescBy (\<lambda>s. \<bar>sd_delta s\<bar>) (sectionDiffs exampleZero exampleV1 keepUnchangedOptions))
     = [(''.text'', 0, 1000, Added, 100), (''.data'', 0, 50, Added, 100),
        (''.noinit'', 0, 0, Added, 0)]"
    by code_simp
  have a: "list_all (\<lambda>d. (sd_status d = Added) = (sd_sizeA d = 0)
                   \<and> (sd_status d = Removed) = (sd_sizeB d = 0 \<and> sd_sizeA d > 0))
        (cr_sections (compareAnalyses ''2025-10-06T00:00:00.000Z'' exampleV1 exampleV2 defaultCompareOptions))"
    unfolding list_all_iff
    using compare_status_deltaPct[of "''2025-10-06T00:00:00.000Z''" exampleV1 exampleV2 defaultCompareOptions]
    by blast
  from a show ?thesis
    unfolding cr_sections_eq e z by simp
qed

text \<open>
  C7. For every parsed result \<open>A\<close>, \<open>compareAnalyses(A, A)\<close> with \<open>includeUnchanged = false\<close> returns
  an empty \<open>sections\<close> list and an empty \<open>anomalies\<close> list: with the default options, and with
  any options whose \<open>includeUnchanged\<close> is false and whose byte threshold is not negative.
\<close>

theorem compare_self_empty:
  "cr_sections (compareAnalyses now A A defaultCompareOptions) = []
   \<and> cr_anomalies (compareAnalyses now A A defaultCompareOptions) = []
   \<and> (\<not> includeUnchanged opts \<and> 0 \<le> anomalyThresholdBytes opts \<longrightarrow>
        cr_sections (compareAnalyses now A A opts) = []
      \<and> cr_anomalies (compareAnalyses now A A opts) = [])"
proof -
  have g: "\<And>p. \<not> includeUnchanged p \<Longrightarrow> 0 \<le> anomalyThresholdBytes p \<Longrightarrow>
      cr_sections (compareAnalyses now A A p) = [] \<and> cr_anomalies (compareAnalyses now A A p) = []"
    by (simp add: cr_sections_eq cr_anomalies_eq sectionDiffs_same computeFileGroups_Nil
        detectAnomalies_Nil sortDescBy_def)
  have d1: "\<not> includeUnchanged defaultCompareOptions"
    by (simp add: defaultCompareOptions_def)
  have d2: "0 \<le> anomalyThresholdBytes defaultCompareOptions"
    by (simp add: defaultCompareOptions_def)
  show ?thesis using g[OF d1 d2] g[of opts] by blast
qed

text \<open>The first example build compared with itself, with the defaults and with a byte threshold of 0.\<close>

theorem compare_self_empty_witness:
  "\<not> includeUnchanged (defaultCompareOptions\<lparr>anomalyThresholdBytes := 0\<rparr>)
   \<and> 0 \<le> anomalyThresholdBytes (defaultCompareOptions\<lparr>anomalyThresholdBytes := 0\<rparr>)
   \<and> sections exampleA \<noteq> []
   \<and> cr_sections (compareAnalyses ''2025-10-06T00:00:00.000Z'' exampleA exampleA
        defaultCompareOptions) = []
   \<and> cr_anomalies (compareAnalyses ''2025-10-06T00:00:00.000Z'' exampleA exampleA
        defaultCompareOptions) = []
   \<and> cr_anomalies (compareAnalyses ''2025-10-06T00:00:00.000Z'' exampleA exampleA
        (defaultCompareOptions\<lparr>anomalyThresholdBytes := 0\<rparr>)) = []"
proof -
  have h1: "\<not> includeUnchanged (defaultCompareOptions\<lparr>anomalyThresholdBytes := 0\<rparr>)"
    by (simp add: defaultCompareOptions_def)
  have h2: "0 \<le> anomalyThresholdBytes (defaultCompareOptions\<lparr>anomalyThresholdBytes := 0\<rparr>)"
    by simp
  have h3: "sections exampleA \<noteq> []" by (simp add: exampleA_def)
  from h1 h2 h3
    compare_self_empty[of "''2025-10-06T00:00:00.000Z''" exampleA
      "defaultCompareOptions\<lparr>anomalyThresholdBytes := 0\<rparr>"]
  show ?thesis by blast
qed

text \<open>
  The bound on the byte threshold is needed: with a threshold of -1 the check of the \<open>.bss\<close>
  total, \<open>0 > -5\<close>, reports a pattern anomaly although no section differs.
\<close>

lemma compare_self_negative_threshold:
  "map an_name (cr_anomalies (compareAnalyses ''2025-10-06T00:00:00.000Z'' exampleA exampleA
      (defaultCompareOptions\<lparr>anomalyThresholdBytes := - 1\<rparr>))) = [''.bss sections'']"
proof -
  have "sectionDiffs exampleA exampleA (defaultCompareOptions\<lparr>anomalyThresholdBytes := - 1\<rparr>) = []"
    by (rule sectionDiffs_same) (simp add: defaultCompareOptions_def)
  then show ?thesis
    unfolding cr_anomalies_eq
    by (simp add: computeFileGroups_Nil detectAnomalies_def bssAnomaly_def Let_def)
qed

text \<open>
  C10. When an input holds several sections of one name, only the last of them takes part in
  the section diff: every name has at most one diff, whose sizes are those of the last section
  of that name on each side (0 where the side has none), while \<open>totalSectionsA\<close>,
  \<open>totalSectionsB\<close> and the flash and RAM totals are computed over the full input lists.
\<close>

theorem compare_duplicate_names:
  "distinct (map sd_name (cr_sections (compareAnalyses now A B opts)))
   \<and> (\<forall>d \<in> set (cr_sections (compareAnalyses now A B opts)).
        sd_sizeA d = (case find (\<lambda>s. sec_name s = sd_name d) (rev (sections A)) of
                        Some s \<Rightarrow> sec_size s | None \<Rightarrow> 0)
      \<and> sd_sizeB d = (case find (\<lambda>s. sec_name s = sd_name d) (rev (sections B)) of
                        Some s \<Rightarrow> sec_size s | None \<Rightarrow> 0))
   \<and> totalSectionsA (cr_summary (compareAnalyses now A B opts)) = length (sections A)
   \<and> totalSectionsB (cr_summary (compareAnalyses now A B opts)) = length (sections B)
   \<and> totalFlashA (cr_summary (compareAnalyses now A B opts)) =
       sum_list (map sec_size (filter (\<lambda>s. startsWith (sec_name s) ''.text''
                                          \<or> startsWith (sec_name s) ''.rodata'') (sections A)))
   \<and> totalFlashB (cr_summary (compareAnalyses now A B opts)) =
       sum_list (map sec_size (filter (\<lambda>s. startsWith (sec_name s) ''.text''
                                          \<or> startsWith (sec_name s) ''.rodata'') (sections B)))
   \<and> totalRamA (cr_summary (compareAnalyses now A B opts)) =
       sum_list (map sec_size (filter (\<lambda>s. startsWith (sec_name s) ''.data''
                                          \<or> startsWith (sec_name s) ''.bss'') (sections A)))
   \<and> totalRamB (cr_summary (compareAnalyses now A B opts)) =
       sum_list (map sec_size (filter (\<lambda>s. startsWith (sec_name s) ''.data''
                                          \<or> startsWith (sec_name s) ''.bss'') (sections B)))"
proof -
  let ?r = "compareAnalyses now A B opts"
  have "mset (map sd_name (cr_sections ?r)) = mset (map sd_name (sectionDiffs A B opts))"
    unfolding mset_map cr_sections_eq sortDescBy_mset ..
  then have d: "distinct (map sd_name (cr_sections ?r))"
    using sectionDiffs_distinct[of A B opts] by (metis mset_eq_imp_distinct_iff)
  have s: "\<forall>d \<in> set (cr_sections ?r).
        sd_sizeA d = (case find (\<lambda>s. sec_name s = sd_name d) (rev (sections A)) of
                        Some s \<Rightarrow> sec_size s | None \<Rightarrow> 0)
      \<and> sd_sizeB d = (case find (\<lambda>s. sec_name s = sd_name d) (rev (sections B)) of
                        Some s \<Rightarrow> sec_size s | None \<Rightarrow> 0)"
  proof
    fix d assume "d \<in> set (cr_sections ?r)"
    then have "d \<in> set (sectionDiffs A B opts)" by (simp add: cr_sections_eq sortDescBy_set)
    then obtain nm where nm: "sectionDiffOf (includeUnchanged opts) (sectionsByName (sections A))
          (sectionsByName (sections B)) nm = Some d"
      by (auto simp: sectionDiffs_member)
    have "sd_name d = nm" using nm by (rule sectionDiffOf_name)
    then show "sd_sizeA d = (case find (\<lambda>s. sec_name s = sd_name d) (rev (sections A)) of
                        Some s \<Rightarrow> sec_size s | None \<Rightarrow> 0)
      \<and> sd_sizeB d = (case find (\<lambda>s. sec_name s = sd_name d) (rev (sections B)) of
                        Some s \<Rightarrow> sec_size s | None \<Rightarrow> 0)"
      using sectionDiffOf_sizes[OF nm] by (simp add: sectionsByName_lookup)
  qed
  show ?thesis
    using d s cr_summary_totals[of now A B opts]
    by (simp add: totalFlash_def totalRam_def foldl_sum_sizes)
qed

text \<open>
  The first example build holds \<open>.text\<close> twice (1000 and 900 bytes): the diff uses 900, the
  summary counts four sections and 1900 bytes of flash.
\<close>

theorem compare_duplicate_names_witness:
  "map (\<lambda>d. (sd_name d, sd_sizeA d, sd_sizeB d))
      (cr_sections (compareAnalyses ''2025-10-06T00:00:00.000Z'' exampleA exampleB defaultCompareOptions))
     = [(''.text'', 900, 1200), (''.bss'', 200, 100), (''.data'', 50, 40)]
   \<and> distinct (map sd_name
        (cr_sections (compareAnalyses ''2025-10-06T00:00:00.000Z'' exampleA exampleB defaultCompareOptions)))
   \<and> totalSectionsA (cr_summary
        (compareAnalyses ''2025-10-06T00:00:00.000Z'' exampleA exampleB defaultCompareOptions)) = 4
   \<and> totalFlashA (cr_summary
        (compareAnalyses ''2025-10-06T00:00:00.000Z'' exampleA exampleB defaultCompareOptions)) = 1900"
proof -
  note t = compare_duplicate_names[of "''2025-10-06T00:00:00.000Z''" exampleA exampleB defaultCompareOptions]
  have a: "map (\<lambda>d. (sd_name d, sd_sizeA d, sd_sizeB d))
      (cr_sections (compareAnalyses ''2025-10-06T00:00:00.000Z'' exampleA exampleB defaultCompareOptions))
     = [(''.text'', 900, 1200), (''.bss'', 200, 100), (''.data'', 50, 40)]"
    unfolding cr_sections_eq example_sectionDiffs by (simp add: sortDescBy_def)
  have b: "length (sections exampleA) = 4" by (simp add: exampleA_def)
  have c: "sum_list (map sec_size (filter (\<lambda>s. startsWith (sec_name s) ''.text''
                                          \<or> startsWith (sec_name s) ''.rodata'') (sections exampleA))) = 1900"
    by (simp add: exampleA_def startsWith_def)
  from t a b c show ?thesis by simp
qed

text \<open>
  C2, as the code has it. For a \<open>topN\<close> that is not negative, \<open>topIncreases\<close> is the first \<open>topN\<close>
  of the positive-delta diffs in the order of the sort by decreasing delta, and \<open>topDecreases\<close>
  is the first \<open>topN\<close> of the negative-delta diffs of that same sort, reversed: it is ordered
  by increasing delta, the largest shrink first. Both lists are drawn from the section diffs
  without loss or repetition, and no section name occurs in both.
\<close>

theorem compare_top_lists:
  assumes "0 \<le> topN opts"
  shows "cr_topIncreases (compareAnalyses now A B opts) =
           take (nat (topN opts))
             (filter (\<lambda>d. sd_delta d > 0) (sortDescBy sd_delta (sectionDiffs A B opts)))
       \<and> cr_topDecreases (compareAnalyses now A B opts) =
           take (nat (topN opts))
             (rev (filter (\<lambda>d. sd_delta d < 0) (sortDescBy sd_delta (sectionDiffs A B opts))))
       \<and> sorted_wrt (\<lambda>a b. sd_delta a \<ge> sd_delta b)
           (filter (\<lambda>d. sd_delta d > 0) (sortDescBy sd_delta (sectionDiffs A B opts)))
       \<and> sorted_wrt (\<lambda>a b. sd_delta a \<le> sd_delta b)
           (rev (filter (\<lambda>d. sd_delta d < 0) (sortDescBy sd_delta (sectionDiffs A B opts))))
       \<and> mset (filter (\<lambda>d. sd_delta d > 0) (sortDescBy sd_delta (sectionDiffs A B opts))) =
           mset (filter (\<lambda>d. sd_delta d > 0) (sectionDiffs A B opts))
       \<and> mset (rev (filter (\<lambda>d. sd_delta d < 0) (sortDescBy sd_delta (sectionDiffs A B opts)))) =
           mset (filter (\<lambda>d. sd_delta d < 0) (sectionDiffs A B opts))
       \<and> sorted_wrt (\<lambda>a b. sd_delta a \<ge> sd_delta b) (cr_topIncreases (compareAnalyses now A B opts))
       \<and> sorted_wrt (\<lambda>a b. sd_delta a \<le> sd_delta b) (cr_topDecreases (compareAnalyses now A B opts))
       \<and> set (map sd_name (cr_topIncreases (compareAnalyses now A B opts)))
           \<inter> set (map sd_name (cr_topDecreases (compareAnalyses now A B opts))) = {}"
proof -
  let ?ds = "sectionDiffs A B opts"
  let ?inc = "filter (\<lambda>d. sd_delta d > 0) (sortDescBy sd_delta ?ds)"
  let ?dec = "rev (filter (\<lambda>d. sd_delta d < 0) (sortDescBy sd_delta ?ds))"
  have ti: "cr_topIncreases (compareAnalyses now A B opts) = take (nat (topN opts)) ?inc"
    using assms by (simp add: cr_topIncreases_eq slice0_nonneg)
  have td: "cr_topDecreases (compareAnalyses now A B opts) = take (nat (topN opts)) ?dec"
    using assms by (simp add: cr_topDecreases_eq slice0_nonneg)
  have si: "sorted_wrt (\<lambda>a b. sd_delta a \<ge> sd_delta b) ?inc"
    by (rule sorted_wrt_filter) (rule sortDescBy_sorted)
  have "sorted_wrt (\<lambda>a b. sd_delta a \<ge> sd_delta b)
          (filter (\<lambda>d. sd_delta d < 0) (sortDescBy sd_delta ?ds))"
    by (rule sorted_wrt_filter) (rule sortDescBy_sorted)
  then have sd: "sorted_wrt (\<lambda>a b. sd_delta a \<le> sd_delta b) ?dec"
    by (rule sorted_wrt_neg_flip)
  have mi: "mset ?inc = mset (filter (\<lambda>d. sd_delta d > 0) ?ds)"
    by (simp add: sortDescBy_mset)
  have md: "mset ?dec = mset (filter (\<lambda>d. sd_delta d < 0) ?ds)"
    by (simp add: sortDescBy_mset)
  have sti: "sorted_wrt (\<lambda>a b. sd_delta a \<ge> sd_delta b) (take (nat (topN opts)) ?inc)"
    using si by (rule sorted_wrt_take)
  have std: "sorted_wrt (\<lambda>a b. sd_delta a \<le> sd_delta b) (take (nat (topN opts)) ?dec)"
    using sd by (rule sorted_wrt_take)
  have disj: "set (map sd_name (take (nat (topN opts)) ?inc))
           \<inter> set (map sd_name (take (nat (topN opts)) ?dec)) = {}"
  proof (rule ccontr)
    assume "set (map sd_name (take (nat (topN opts)) ?inc))
           \<inter> set (map sd_name (take (nat (topN opts)) ?dec)) \<noteq> {}"
    then obtain d1 d2 where
      d1: "d1 \<in> set (take (nat (topN opts)) ?inc)" and
      d2: "d2 \<in> set (take (nat (topN opts)) ?dec)" and
      eq: "sd_name d1 = sd_name d2"
      by auto
    from d1 have "d1 \<in> set ?inc" by (rule in_set_takeD)
    then have p1: "d1 \<in> set ?ds" "sd_delta d1 > 0" by (auto simp: sortDescBy_set)
    from d2 have "d2 \<in> set ?dec" by (rule in_set_takeD)
    then have p2: "d2 \<in> set ?ds" "sd_delta d2 < 0" by (auto simp: sortDescBy_set)
    have "inj_on sd_name (set ?ds)"
      using sectionDiffs_distinct[of A B opts] by (simp add: distinct_map)
    with p1(1) p2(1) eq have "d1 = d2" by (auto dest: inj_onD)
    with p1(2) p2(2) show False by simp
  qed
  show ?thesis
    unfolding ti td using si sd mi md sti std disj by blast
qed

text \<open>The example builds with the default \<open>topN\<close> of 20.\<close>

theorem compare_top_lists_witness:
  "0 \<le> topN defaultCompareOptions
   \<and> map sd_name (cr_topIncreases
        (compareAnalyses ''2025-10-06T00:00:00.000Z'' exampleA exampleB defaultCompareOptions)) = [''.text'']
   \<and> map sd_name (cr_topDecreases
        (compareAnalyses ''2025-10-06T00:00:00.000Z'' exampleA exampleB defaultCompareOptions)) = [''.bss'', ''.data'']
   \<and> sorted_wrt (\<lambda>a b. sd_delta a \<le> sd_delta b) (cr_topDecreases
        (compareAnalyses ''2025-10-06T00:00:00.000Z'' exampleA exampleB defaultCompareOptions))"
proof -
  have h: "0 \<le> topN defaultCompareOptions" by (simp add: defaultCompareOptions_def)
  note t = compare_top_lists[OF h, of "''2025-10-06T00:00:00.000Z''" exampleA exampleB]
  have inc: "map sd_name (cr_topIncreases
        (compareAnalyses ''2025-10-06T00:00:00.000Z'' exampleA exampleB defaultCompareOptions)) = [''.text'']"
    using t unfolding example_sectionDiffs
    by (simp add: sortDescBy_def defaultCompareOptions_def)
  have dec: "map sd_name (cr_topDecreases
        (compareAnalyses ''2025-10-06T00:00:00.000Z'' exampleA exampleB defaultCompareOptions)) = [''.bss'', ''.data'']"
    using t unfolding example_sectionDiffs
    by (simp add: sortDescBy_def defaultCompareOptions_def)
  from h inc dec t show ?thesis by blast
qed

text \<open>
  On the example builds \<open>topDecreases\<close> holds the deltas -100 and -10 in this order, which is
  not what sorting them by increasing delta and then reversing gives; and with a \<open>topN\<close> of -1
  the list is not empty: \<open>slice(0, -1)\<close> keeps all but the last element.
\<close>

theorem topDecreases_counterexample:
  "map sd_delta (cr_topDecreases
      (compareAnalyses ''2025-10-06T00:00:00.000Z'' exampleA exampleB defaultCompareOptions)) = [- 100, - 10]
   \<and> rev (sort (map sd_delta (cr_topDecreases
      (compareAnalyses ''2025-10-06T00:00:00.000Z'' exampleA exampleB defaultCompareOptions)))) = [- 10, - 100]
   \<and> map sd_delta (cr_topDecreases
      (compareAnalyses ''2025-10-06T00:00:00.000Z'' exampleA exampleB defaultCompareOptions))
     \<noteq> rev (sort (map sd_delta (cr_topDecreases
      (compareAnalyses ''2025-10-06T00:00:00.000Z'' exampleA exampleB defaultCompareOptions))))
   \<and> map sd_delta (cr_topDecreases
      (compareAnalyses ''2025-10-06T00:00:00.000Z'' exampleA exampleB
         (defaultCompareOptions\<lparr>topN := - 1\<rparr>))) = [- 100]"
  unfolding example_topDecreases example_topDecreases_negative by simp

section \<open>Version diff\<close>

lemma allKeys_set:
  "set (allKeys A B) = fst ` set (sectionsByKey (sections A)) \<union> fst ` set (sectionsByKey (sections B))"
  by (simp add: allKeys_def jsSet_set)

lemma allKeys_sym: "set (allKeys A B) = set (allKeys B A)"
  by (auto simp: allKeys_set)

lemma dr_diff_eq:
  "dr_diff (computeMemoryDiff now A B opts) = sortDescBy (\<lambda>d. \<bar>de_sizeDiff d\<bar>) (diffResults A B opts)"
  by (simp add: computeMemoryDiff_def Let_def)

lemma dr_diff_set:
  "set (dr_diff (computeMemoryDiff now A B opts)) =
     diffEntryOf opts (sectionsByKey (sections A)) (sectionsByKey (sections B)) ` set (allKeys A B)"
  by (simp add: dr_diff_eq sortDescBy_set diffResults_def)

lemma dr_anomalies_eq:
  "dr_anomalies (computeMemoryDiff now A B opts) =
     sortDescBy (\<lambda>a. diffSeverityOrder (da_severity a))
       (concat (map (anomalyOf opts) (diffResults A B opts)))"
  by (simp add: computeMemoryDiff_def Let_def)

lemma dr_anomalies_set:
  "set (dr_anomalies (computeMemoryDiff now A B opts)) =
     (\<Union>e \<in> set (diffResults A B opts). set (anomalyOf opts e))"
  by (simp add: dr_anomalies_eq sortDescBy_set)

lemma diffEntryOf_swap:
  "de_name (diffEntryOf opts m1 m2 k) = de_name (diffEntryOf opts m2 m1 k) \<and>
   de_filePath (diffEntryOf opts m1 m2 k) = de_filePath (diffEntryOf opts m2 m1 k) \<and>
   de_sizeV1 (diffEntryOf opts m1 m2 k) = de_sizeV2 (diffEntryOf opts m2 m1 k) \<and>
   de_sizeV2 (diffEntryOf opts m1 m2 k) = de_sizeV1 (diffEntryOf opts m2 m1 k) \<and>
   de_sizeDiff (diffEntryOf opts m1 m2 k) = - de_sizeDiff (diffEntryOf opts m2 m1 k) \<and>
   (de_status (diffEntryOf opts m1 m2 k) = StAdded \<longleftrightarrow>
      de_status (diffEntryOf opts m2 m1 k) = StRemoved) \<and>
   (de_status (diffEntryOf opts m1 m2 k) = StRemoved \<longleftrightarrow>
      de_status (diffEntryOf opts m2 m1 k) = StAdded) \<and>
   (de_status (diffEntryOf opts m1 m2 k) = StGrowth \<longleftrightarrow>
      de_status (diffEntryOf opts m2 m1 k) = StShrink) \<and>
   (de_status (diffEntryOf opts m1 m2 k) = StShrink \<longleftrightarrow>
      de_status (diffEntryOf opts m2 m1 k) = StGrowth) \<and>
   (de_status (diffEntryOf opts m1 m2 k) = StSame \<longleftrightarrow>
      de_status (diffEntryOf opts m2 m1 k) = StSame)"
  by (simp add: diffEntryOf_def Let_def)

lemma determineSeverity_added_removed:
  "st = StAdded \<or> st = StRemoved \<Longrightarrow>
   determineSeverity st p a = (if a > 10240 then Critical else High)"
  by (auto simp: determineSeverity_def)

lemma newSection_reason_iff:
  "(\<exists>n. NewSection n \<in> set (anomalyReasons opts e)) \<longleftrightarrow> (de_status e = StAdded \<and> de_sizeV2 e > 1024)"
  by (auto simp: anomalyReasons_def Let_def split: if_splits)

lemma removedSection_reason_iff:
  "(\<exists>n. RemovedSection n \<in> set (anomalyReasons opts e)) \<longleftrightarrow> (de_status e = StRemoved \<and> de_sizeV1 e > 1024)"
  by (auto simp: anomalyReasons_def Let_def split: if_splits)

lemma anomalyOf_severity:
  "de_status e = StAdded \<or> de_status e = StRemoved \<Longrightarrow> a \<in> set (anomalyOf opts e) \<Longrightarrow>
   da_severity a = (if \<bar>de_sizeDiff e\<bar> > 10240 then Critical else High)"
  by (auto simp: anomalyOf_def Let_def determineSeverity_added_removed split: if_splits)

lemma diffEntryOf_added_not_shifted:
  "de_status (diffEntryOf opts m1 m2 k) = StAdded \<Longrightarrow> \<not> de_addressShifted (diffEntryOf opts m1 m2 k)"
  by (auto simp: diffEntryOf_def Let_def jsOr_def truthy_def split: if_splits)

lemma diffEntryOf_removed_not_shifted:
  "de_status (diffEntryOf opts m1 m2 k) = StRemoved \<Longrightarrow> \<not> de_addressShifted (diffEntryOf opts m1 m2 k)"
  by (auto simp: diffEntryOf_def Let_def jsOr_def truthy_def split: if_splits)

lemma anomalyOf_added:
  assumes "e = diffEntryOf opts m1 m2 k" and "de_status e = StAdded"
  shows "anomalyOf opts e =
     (if de_sizeV2 e > 1024
      then [\<lparr>da_entry = e, da_reasons = [NewSection (de_sizeV2 e)],
             da_severity = (if \<bar>de_sizeDiff e\<bar> > 10240 then Critical else High)\<rparr>]
      else [])"
  using assms diffEntryOf_added_not_shifted[of opts m1 m2 k]
  by (simp add: anomalyOf_def anomalyReasons_def Let_def determineSeverity_added_removed)

lemma anomalyOf_removed:
  assumes "e = diffEntryOf opts m1 m2 k" and "de_status e = StRemoved"
  shows "anomalyOf opts e =
     (if de_sizeV1 e > 1024
      then [\<lparr>da_entry = e, da_reasons = [RemovedSection (de_sizeV1 e)],
             da_severity = (if \<bar>de_sizeDiff e\<bar> > 10240 then Critical else High)\<rparr>]
      else [])"
  using assms diffEntryOf_removed_not_shifted[of opts m1 m2 k]
  by (simp add: anomalyOf_def anomalyReasons_def Let_def determineSeverity_added_removed)

lemma sectionKey_name:
  "CHR '':'' \<notin> set (sec_name s) \<Longrightarrow> hd (split_on CHR '':'' (sectionKey s)) = sec_name s"
  by (simp add: split_on_hd sectionKey_def takeWhile_until)

lemma diffEntryOf_only_v2:
  assumes "map_of m1 k = None" and "map_of m2 k = Some s"
  shows "de_status (diffEntryOf opts m1 m2 k) = StAdded
       \<and> de_sizeV1 (diffEntryOf opts m1 m2 k) = 0
       \<and> de_sizeV2 (diffEntryOf opts m1 m2 k) = sec_size s
       \<and> de_sizeDiff (diffEntryOf opts m1 m2 k) = int (sec_size s)
       \<and> de_name (diffEntryOf opts m1 m2 k) = hd (split_on CHR '':'' k)
       \<and> de_region (diffEntryOf opts m1 m2 k) = determineRegion (hd (split_on CHR '':'' k))"
  using assms by (simp add: diffEntryOf_def Let_def)

lemma key_in_allKeys:
  "map_of (sectionsByKey (sections B)) k = Some s \<Longrightarrow> k \<in> set (allKeys A B)"
  by (auto simp: allKeys_set dest!: map_of_SomeD intro: rev_image_eqI)

lemma bss_x_scenario:
  assumes n: "sec_name s = ''.bss.x''" and z: "sec_size s = 2000"
    and v1: "map_of (sectionsByKey (sections V1)) (sectionKey s) = None"
    and v2: "map_of (sectionsByKey (sections V2)) (sectionKey s) = Some s"
    and e: "e = diffEntryOf opts (sectionsByKey (sections V1)) (sectionsByKey (sections V2)) (sectionKey s)"
  shows "de_status e = StAdded \<and> de_region e = RAM \<and> de_sizeV2 e = 2000
       \<and> anomalyOf opts e = [\<lparr>da_entry = e, da_reasons = [NewSection 2000], da_severity = High\<rparr>]
       \<and> e \<in> set (dr_diff (computeMemoryDiff now V1 V2 opts))
       \<and> \<lparr>da_entry = e, da_reasons = [NewSection 2000], da_severity = High\<rparr>
            \<in> set (dr_anomalies (computeMemoryDiff now V1 V2 opts))"
proof -
  have nm: "hd (split_on CHR '':'' (sectionKey s)) = ''.bss.x''"
    using sectionKey_name[of s] n by simp
  note f = diffEntryOf_only_v2[OF v1 v2, of opts, folded e]
  have st: "de_status e = StAdded" and sz: "de_sizeV2 e = 2000" and sd: "de_sizeDiff e = 2000"
    using f z by simp_all
  have rg: "de_region e = RAM"
    using f nm by (simp add: determineRegion_def startsWith_def)
  have an: "anomalyOf opts e = [\<lparr>da_entry = e, da_reasons = [NewSection 2000], da_severity = High\<rparr>]"
    using anomalyOf_added[OF e st] sz sd by simp
  have k: "sectionKey s \<in> set (allKeys V1 V2)" using v2 by (rule key_in_allKeys)
  then have m1: "e \<in> set (dr_diff (computeMemoryDiff now V1 V2 opts))"
    unfolding dr_diff_set e by (rule imageI)
  have "e \<in> set (diffResults V1 V2 opts)"
    using k unfolding diffResults_def e by simp
  then have m2: "\<lparr>da_entry = e, da_reasons = [NewSection 2000], da_severity = High\<rparr>
            \<in> set (dr_anomalies (computeMemoryDiff now V1 V2 opts))"
    unfolding dr_anomalies_set using an by force
  show ?thesis using st rg sz an m1 m2 by blast
qed

lemma example_allKeys: "allKeys exampleV1 exampleV2 = [''.text:a.o'', ''.data:'', ''.bss.x:x.o'']"
  by code_simp

lemma example_byKey_V1:
  "map_of (sectionsByKey (sections exampleV1)) ''.bss.x:x.o'' = None"
  by code_simp

lemma example_byKey_V2:
  "map_of (sectionsByKey (sections exampleV2)) ''.bss.x:x.o'' =
     Some \<lparr>sec_name = ''.bss.x'', sec_address = Some ''0x20000100'', sec_size = 2000,
           sec_filePath = Some ''x.o''\<rparr>"
  by code_simp

text \<open>
  C3. For every two parsed results \<open>A\<close> and \<open>B\<close>, the diffs of \<open>(A, B)\<close> and of \<open>(B, A)\<close> cover the
  same keys and the same pairs of name and file path, and for every key the two entries have
  \<open>sizeV1\<close> and \<open>sizeV2\<close> exchanged, \<open>sizeDiff\<close> negated, and the status \<open>added\<close> in one
  direction exactly when it is \<open>removed\<close> in the other.
\<close>

theorem diff_swap_symmetry:
  "set (allKeys A B) = set (allKeys B A)
   \<and> set (dr_diff (computeMemoryDiff now A B opts)) =
       diffEntryOf opts (sectionsByKey (sections A)) (sectionsByKey (sections B)) ` set (allKeys A B)
   \<and> set (dr_diff (computeMemoryDiff now' B A opts)) =
       diffEntryOf opts (sectionsByKey (sections B)) (sectionsByKey (sections A)) ` set (allKeys A B)
   \<and> (\<lambda>e. (de_name e, de_filePath e)) ` set (dr_diff (computeMemoryDiff now A B opts)) =
       (\<lambda>e. (de_name e, de_filePath e)) ` set (dr_diff (computeMemoryDiff now' B A opts))
   \<and> (\<forall>k \<in> set (allKeys A B).
        de_name (diffEntryOf opts (sectionsByKey (sections A)) (sectionsByKey (sections B)) k) =
          de_name (diffEntryOf opts (sectionsByKey (sections B)) (sectionsByKey (sections A)) k)
      \<and> de_filePath (diffEntryOf opts (sectionsByKey (sections A)) (sectionsByKey (sections B)) k) =
          de_filePath (diffEntryOf opts (sectionsByKey (sections B)) (sectionsByKey (sections A)) k)
      \<and> de_sizeV1 (diffEntryOf opts (sectionsByKey (sections A)) (sectionsByKey (sections B)) k) =
          de_sizeV2 (diffEntryOf opts (sectionsByKey (sections B)) (sectionsByKey (sections A)) k)
      \<and> de_sizeV2 (diffEntryOf opts (sectionsByKey (sections A)) (sectionsByKey (sections B)) k) =
          de_sizeV1 (diffEntryOf opts (sectionsByKey (sections B)) (sectionsByKey (sections A)) k)
      \<and> de_sizeDiff (diffEntryOf opts (sectionsByKey (sections A)) (sectionsByKey (sections B)) k) =
          - de_sizeDiff (diffEntryOf opts (sectionsByKey (sections B)) (sectionsByKey (sections A)) k)
      \<and> (de_status (diffEntryOf opts (sectionsByKey (sections A)) (sectionsByKey (sections B)) k) = StAdded
           \<longleftrightarrow> de_status (diffEntryOf opts (sectionsByKey (sections B)) (sectionsByKey (sections A)) k) = StRemoved)
      \<and> (de_status (diffEntryOf opts (sectionsByKey (sections A)) (sectionsByKey (sections B)) k) = StRemoved
           \<longleftrightarrow> de_status (diffEntryOf opts (sectionsByKey (sections B)) (sectionsByKey (sections A)) k) = StAdded))"
proof -
  let ?mA = "sectionsByKey (sections A)" and ?mB = "sectionsByKey (sections B)"
  have k: "set (allKeys A B) = set (allKeys B A)" by (rule allKeys_sym)
  have d1: "set (dr_diff (computeMemoryDiff now A B opts)) = diffEntryOf opts ?mA ?mB ` set (allKeys A B)"
    by (rule dr_diff_set)
  have d2: "set (dr_diff (computeMemoryDiff now' B A opts)) = diffEntryOf opts ?mB ?mA ` set (allKeys A B)"
    unfolding k by (rule dr_diff_set)
  have nf: "(\<lambda>e. (de_name e, de_filePath e)) ` set (dr_diff (computeMemoryDiff now A B opts)) =
       (\<lambda>e. (de_name e, de_filePath e)) ` set (dr_diff (computeMemoryDiff now' B A opts))"
    unfolding d1 d2 image_image
    by (rule image_cong[OF refl]) (simp add: diffEntryOf_swap[of opts ?mA ?mB])
  show ?thesis
    using k d1 d2 nf diffEntryOf_swap[of opts ?mA ?mB] by blast
qed

text \<open>The key of \<open>.bss.x\<close> in the two example builds: added one way, removed the other.\<close>

theorem diff_swap_symmetry_witness:
  "''.bss.x:x.o'' \<in> set (allKeys exampleV1 exampleV2)
   \<and> set (allKeys exampleV1 exampleV2) = set (allKeys exampleV2 exampleV1)
   \<and> de_status (diffEntryOf defaultDiffOptions (sectionsByKey (sections exampleV1))
        (sectionsByKey (sections exampleV2)) ''.bss.x:x.o'') = StAdded
   \<and> de_status (diffEntryOf defaultDiffOptions (sectionsByKey (sections exampleV2))
        (sectionsByKey (sections exampleV1)) ''.bss.x:x.o'') = StRemoved
   \<and> de_sizeDiff (diffEntryOf defaultDiffOptions (sectionsByKey (sections exampleV1))
        (sectionsByKey (sections exampleV2)) ''.bss.x:x.o'') = 2000
   \<and> de_sizeDiff (diffEntryOf defaultDiffOptions (sectionsByKey (sections exampleV2))
        (sectionsByKey (sections exampleV1)) ''.bss.x:x.o'') = - 2000"
proof -
  have k: "''.bss.x:x.o'' \<in> set (allKeys exampleV1 exampleV2)"
    by (simp add: example_allKeys)
  have f: "de_status (diffEntryOf defaultDiffOptions (sectionsByKey (sections exampleV1))
        (sectionsByKey (sections exampleV2)) ''.bss.x:x.o'') = StAdded
     \<and> de_sizeDiff (diffEntryOf defaultDiffOptions (sectionsByKey (sections exampleV1))
        (sectionsByKey (sections exampleV2)) ''.bss.x:x.o'') = 2000"
    using diffEntryOf_only_v2[OF example_byKey_V1 example_byKey_V2, of defaultDiffOptions]
    by simp
  from k f diff_swap_symmetry[of exampleV1 exampleV2 "''2025-10-06T00:00:00.000Z''" defaultDiffOptions
      "''2025-10-06T00:00:00.000Z''"]
  show ?thesis by (auto)
qed

lemma anomalyOf_member:
  "a \<in> set (anomalyOf opts e) \<Longrightarrow>
     da_entry a = e \<and> da_reasons a = anomalyReasons opts e \<and> anomalyReasons opts e \<noteq> []
     \<and> da_severity a =
         determineSeverity (de_status e) (rawSizeDiffPct (de_sizeV1 e) (de_sizeV2 e)) \<bar>de_sizeDiff e\<bar>"
  by (auto simp: anomalyOf_def Let_def split: if_splits)

lemma anomalyReasons_added:
  "\<not> de_addressShifted e \<Longrightarrow> de_status e = StAdded \<Longrightarrow>
   anomalyReasons opts e = (if de_sizeV2 e > 1024 then [NewSection (de_sizeV2 e)] else [])"
  by (simp add: anomalyReasons_def Let_def)

lemma anomalyReasons_removed:
  "\<not> de_addressShifted e \<Longrightarrow> de_status e = StRemoved \<Longrightarrow>
   anomalyReasons opts e = (if de_sizeV1 e > 1024 then [RemovedSection (de_sizeV1 e)] else [])"
  by (simp add: anomalyReasons_def Let_def)

lemma dr_diff_results:
  "set (dr_diff (computeMemoryDiff now A B opts)) = set (diffResults A B opts)"
  by (simp add: dr_diff_eq sortDescBy_set)

lemma diffResults_member:
  "e \<in> set (diffResults A B opts) \<Longrightarrow>
     \<exists>k. e = diffEntryOf opts (sectionsByKey (sections A)) (sectionsByKey (sections B)) k"
  by (auto simp: diffResults_def)

lemma dr_anomalies_member:
  "a \<in> set (dr_anomalies (computeMemoryDiff now A B opts)) \<longleftrightarrow>
     (da_entry a \<in> set (dr_diff (computeMemoryDiff now A B opts)) \<and> a \<in> set (anomalyOf opts (da_entry a)))"
  unfolding dr_anomalies_set dr_diff_results
  by (auto dest: anomalyOf_member)

lemma reported_anomaly_props:
  assumes "a \<in> set (dr_anomalies (computeMemoryDiff now A B opts))"
  shows "da_entry a \<in> set (dr_diff (computeMemoryDiff now A B opts))
      \<and> ((\<exists>n. NewSection n \<in> set (da_reasons a)) \<longleftrightarrow>
           (de_status (da_entry a) = StAdded \<and> de_sizeV2 (da_entry a) > 1024))
      \<and> ((\<exists>n. RemovedSection n \<in> set (da_reasons a)) \<longleftrightarrow>
           (de_status (da_entry a) = StRemoved \<and> de_sizeV1 (da_entry a) > 1024))
      \<and> (de_status (da_entry a) = StAdded \<longrightarrow>
           da_reasons a = [NewSection (de_sizeV2 (da_entry a))])
      \<and> (de_status (da_entry a) = StRemoved \<longrightarrow>
           da_reasons a = [RemovedSection (de_sizeV1 (da_entry a))])
      \<and> (de_status (da_entry a) = StAdded \<or> de_status (da_entry a) = StRemoved \<longrightarrow>
           da_severity a = (if \<bar>de_sizeDiff (da_entry a)\<bar> > 10240 then Critical else High))"
proof -
  let ?e = "da_entry a"
  from assms have m: "?e \<in> set (dr_diff (computeMemoryDiff now A B opts))"
    and i: "a \<in> set (anomalyOf opts ?e)"
    by (simp_all add: dr_anomalies_member)
  from m obtain k where k: "?e = diffEntryOf opts (sectionsByKey (sections A)) (sectionsByKey (sections B)) k"
    unfolding dr_diff_results by (blast dest: diffResults_member)
  have r: "da_reasons a = anomalyReasons opts ?e"
    using anomalyOf_member[OF i] by simp
  have n: "(\<exists>n. NewSection n \<in> set (da_reasons a)) \<longleftrightarrow>
           (de_status ?e = StAdded \<and> de_sizeV2 ?e > 1024)"
    unfolding r by (rule newSection_reason_iff)
  have d: "(\<exists>n. RemovedSection n \<in> set (da_reasons a)) \<longleftrightarrow>
           (de_status ?e = StRemoved \<and> de_sizeV1 ?e > 1024)"
    unfolding r by (rule removedSection_reason_iff)
  have ra: "de_status ?e = StAdded \<longrightarrow> da_reasons a = [NewSection (de_sizeV2 ?e)]"
  proof
    assume st: "de_status ?e = StAdded"
    have "\<not> de_addressShifted ?e"
      using diffEntryOf_added_not_shifted[of opts "sectionsByKey (sections A)"
          "sectionsByKey (sections B)" k] st k by simp
    then have "anomalyReasons opts ?e =
        (if de_sizeV2 ?e > 1024 then [NewSection (de_sizeV2 ?e)] else [])"
      using st by (rule anomalyReasons_added)
    moreover have "anomalyReasons opts ?e \<noteq> []" using anomalyOf_member[OF i] by simp
    ultimately show "da_reasons a = [NewSection (de_sizeV2 ?e)]"
      unfolding r by (simp split: if_splits)
  qed
  have rr: "de_status ?e = StRemoved \<longrightarrow> da_reasons a = [RemovedSection (de_sizeV1 ?e)]"
  proof
    assume st: "de_status ?e = StRemoved"
    have "\<not> de_addressShifted ?e"
      using diffEntryOf_removed_not_shifted[of opts "sectionsByKey (sections A)"
          "sectionsByKey (sections B)" k] st k by simp
    then have "anomalyReasons opts ?e =
        (if de_sizeV1 ?e > 1024 then [RemovedSection (de_sizeV1 ?e)] else [])"
      using st by (rule anomalyReasons_removed)
    moreover have "anomalyReasons opts ?e \<noteq> []" using anomalyOf_member[OF i] by simp
    ultimately show "da_reasons a = [RemovedSection (de_sizeV1 ?e)]"
      unfolding r by (simp split: if_splits)
  qed
  have sv: "de_status ?e = StAdded \<or> de_status ?e = StRemoved \<longrightarrow>
           da_severity a = (if \<bar>de_sizeDiff ?e\<bar> > 10240 then Critical else High)"
    using anomalyOf_severity[OF _ i] by blast
  from m n d ra rr sv show ?thesis by blast
qed

lemma diff_entry_anomaly:
  assumes "e \<in> set (dr_diff (computeMemoryDiff now A B opts))"
  shows "(de_status e = StAdded \<longrightarrow>
           ((\<exists>a \<in> set (dr_anomalies (computeMemoryDiff now A B opts)). da_entry a = e)
              \<longleftrightarrow> de_sizeV2 e > 1024)
         \<and> (de_sizeV2 e > 1024 \<longrightarrow>
              \<lparr>da_entry = e, da_reasons = [NewSection (de_sizeV2 e)],
               da_severity = (if \<bar>de_sizeDiff e\<bar> > 10240 then Critical else High)\<rparr>
              \<in> set (dr_anomalies (computeMemoryDiff now A B opts))))
      \<and> (de_status e = StRemoved \<longrightarrow>
           ((\<exists>a \<in> set (dr_anomalies (computeMemoryDiff now A B opts)). da_entry a = e)
              \<longleftrightarrow> de_sizeV1 e > 1024)
         \<and> (de_sizeV1 e > 1024 \<longrightarrow>
              \<lparr>da_entry = e, da_reasons = [RemovedSection (de_sizeV1 e)],
               da_severity = (if \<bar>de_sizeDiff e\<bar> > 10240 then Critical else High)\<rparr>
              \<in> set (dr_anomalies (computeMemoryDiff now A B opts))))"
proof -
  let ?R = "computeMemoryDiff now A B opts"
  from assms obtain k where k: "e = diffEntryOf opts (sectionsByKey (sections A)) (sectionsByKey (sections B)) k"
    unfolding dr_diff_results by (blast dest: diffResults_member)
  have mem: "\<And>a. a \<in> set (dr_anomalies ?R) \<and> da_entry a = e \<longleftrightarrow> a \<in> set (anomalyOf opts e)"
    using assms by (auto simp: dr_anomalies_member dest: anomalyOf_member)
  have ad: "de_status e = StAdded \<longrightarrow>
           ((\<exists>a \<in> set (dr_anomalies ?R). da_entry a = e) \<longleftrightarrow> de_sizeV2 e > 1024)
         \<and> (de_sizeV2 e > 1024 \<longrightarrow>
              \<lparr>da_entry = e, da_reasons = [NewSection (de_sizeV2 e)],
               da_severity = (if \<bar>de_sizeDiff e\<bar> > 10240 then Critical else High)\<rparr>
              \<in> set (dr_anomalies ?R))"
  proof
    assume st: "de_status e = StAdded"
    note ao = anomalyOf_added[OF k st]
    have 1: "(\<exists>a \<in> set (dr_anomalies ?R). da_entry a = e) \<longleftrightarrow> de_sizeV2 e > 1024"
    proof
      assume "\<exists>a \<in> set (dr_anomalies ?R). da_entry a = e"
      then obtain a where "a \<in> set (anomalyOf opts e)" using mem by blast
      then show "de_sizeV2 e > 1024" unfolding ao by (simp split: if_splits)
    next
      assume "de_sizeV2 e > 1024"
      then have "anomalyOf opts e \<noteq> []" unfolding ao by simp
      then obtain a where "a \<in> set (anomalyOf opts e)" by (cases "anomalyOf opts e") auto
      then show "\<exists>a \<in> set (dr_anomalies ?R). da_entry a = e" using mem by blast
    qed
    have 2: "de_sizeV2 e > 1024 \<longrightarrow>
              \<lparr>da_entry = e, da_reasons = [NewSection (de_sizeV2 e)],
               da_severity = (if \<bar>de_sizeDiff e\<bar> > 10240 then Critical else High)\<rparr>
              \<in> set (dr_anomalies ?R)"
    proof
      assume "de_sizeV2 e > 1024"
      then have "\<lparr>da_entry = e, da_reasons = [NewSection (de_sizeV2 e)],
               da_severity = (if \<bar>de_sizeDiff e\<bar> > 10240 then Critical else High)\<rparr>
              \<in> set (anomalyOf opts e)" unfolding ao by simp
      then show "\<lparr>da_entry = e, da_reasons = [NewSection (de_sizeV2 e)],
               da_severity = (if \<bar>de_sizeDiff e\<bar> > 10240 then Critical else High)\<rparr>
              \<in> set (dr_anomalies ?R)" using mem by blast
    qed
    from 1 2 show "((\<exists>a \<in> set (dr_anomalies ?R). da_entry a = e) \<longleftrightarrow> de_sizeV2 e > 1024)
         \<and> (de_sizeV2 e > 1024 \<longrightarrow>
              \<lparr>da_entry = e, da_reasons = [NewSection (de_sizeV2 e)],
               da_severity = (if \<bar>de_sizeDiff e\<bar> > 10240 then Critical else High)\<rparr>
              \<in> set (dr_anomalies ?R))" by blast
  qed
  have rm: "de_status e = StRemoved \<longrightarrow>
           ((\<exists>a \<in> set (dr_anomalies ?R). da_entry a = e) \<longleftrightarrow> de_sizeV1 e > 1024)
         \<and> (de_sizeV1 e > 1024 \<longrightarrow>
              \<lparr>da_entry = e, da_reasons = [RemovedSection (de_sizeV1 e)],
               da_severity = (if \<bar>de_sizeDiff e\<bar> > 10240 then Critical else High)\<rparr>
              \<in> set (dr_anomalies ?R))"
  proof
    assume st: "de_status e = StRemoved"
    note ao = anomalyOf_removed[OF k st]
    have 1: "(\<exists>a \<in> set (dr_anomalies ?R). da_entry a = e) \<longleftrightarrow> de_sizeV1 e > 1024"
    proof
      assume "\<exists>a \<in> set (dr_anomalies ?R). da_entry a = e"
      then obtain a where "a \<in> set (anomalyOf opts e)" using mem by blast
      then show "de_sizeV1 e > 1024" unfolding ao by (simp split: if_splits)
    next
      assume "de_sizeV1 e > 1024"
      then have "anomalyOf opts e \<noteq> []" unfolding ao by simp
      then obtain a where "a \<in> set (anomalyOf opts e)" by (cases "anomalyOf opts e") auto
      then show "\<exists>a \<in> set (dr_anomalies ?R). da_entry a = e" using mem by blast
    qed
    have 2: "de_sizeV1 e > 1024 \<longrightarrow>
              \<lparr>da_entry = e, da_reasons = [RemovedSection (de_sizeV1 e)],
               da_severity = (if \<bar>de_sizeDiff e\<bar> > 10240 then Critical else High)\<rparr>
              \<in> set (dr_anomalies ?R)"
    proof
      assume "de_sizeV1 e > 1024"
      then have "\<lparr>da_entry = e, da_reasons = [RemovedSection (de_sizeV1 e)],
               da_severity = (if \<bar>de_sizeDiff e\<bar> > 10240 then Critical else High)\<rparr>
              \<in> set (anomalyOf opts e)" unfolding ao by simp
      then show "\<lparr>da_entry = e, da_reasons = [RemovedSection (de_sizeV1 e)],
               da_severity = (if \<bar>de_sizeDiff e\<bar> > 10240 then Critical else High)\<rparr>
              \<in> set (dr_anomalies ?R)" using mem by blast
    qed
    from 1 2 show "((\<exists>a \<in> set (dr_anomalies ?R). da_entry a = e) \<longleftrightarrow> de_sizeV1 e > 1024)
         \<and> (de_sizeV1 e > 1024 \<longrightarrow>
              \<lparr>da_entry = e, da_reasons = [RemovedSection (de_sizeV1 e)],
               da_severity = (if \<bar>de_sizeDiff e\<bar> > 10240 then Critical else High)\<rparr>
              \<in> set (dr_anomalies ?R))" by blast
  qed
  from ad rm show ?thesis by blast
qed

lemma example_byKey_data_V1:
  "map_of (sectionsByKey (sections exampleV1)) ''.data:'' =
     Some \<lparr>sec_name = ''.data'', sec_address = Some ''0x20000000'', sec_size = 50,
           sec_filePath = None\<rparr>"
  by code_simp

lemma example_byKey_data_V2:
  "map_of (sectionsByKey (sections exampleV2)) ''.data:'' = None"
  by code_simp

lemma key_in_allKeys_left:
  "map_of (sectionsByKey (sections A)) k = Some s \<Longrightarrow> k \<in> set (allKeys A B)"
  using key_in_allKeys[of A k s B] allKeys_sym[of A B] by simp

text \<open>
  C8. In the result of \<open>computeMemoryDiff\<close>, every reported anomaly belongs to an entry of the
  diff; it carries a \<open>New section\<close> reason exactly when its entry has the status \<open>added\<close> and
  a \<open>sizeV2\<close> above 1024, and a \<open>Removed section\<close> reason exactly when its entry has the
  status \<open>removed\<close> and a \<open>sizeV1\<close> above 1024, whatever the options; for an added or removed
  entry that is its only reason, and its severity is \<open>critical\<close> when the absolute size
  difference is above 10240 and \<open>high\<close> otherwise. Conversely an added entry of the diff has
  an anomaly exactly when its \<open>sizeV2\<close> is above 1024, a removed entry exactly when its
  \<open>sizeV1\<close> is above 1024, and then the anomaly just described is in the list. A section
  \<open>.bss.x\<close> of size 2000 that only the second version has is \<open>added\<close>, lies in \<open>RAM\<close>, and
  its anomaly in the result has the reason \<open>New section\<close> and the severity \<open>high\<close>.
\<close>

theorem added_removed_anomalies:
  "(\<forall>a \<in> set (dr_anomalies (computeMemoryDiff now V1 V2 opts)).
        da_entry a \<in> set (dr_diff (computeMemoryDiff now V1 V2 opts))
      \<and> ((\<exists>n. NewSection n \<in> set (da_reasons a)) \<longleftrightarrow>
           (de_status (da_entry a) = StAdded \<and> de_sizeV2 (da_entry a) > 1024))
      \<and> ((\<exists>n. RemovedSection n \<in> set (da_reasons a)) \<longleftrightarrow>
           (de_status (da_entry a) = StRemoved \<and> de_sizeV1 (da_entry a) > 1024))
      \<and> (de_status (da_entry a) = StAdded \<longrightarrow>
           da_reasons a = [NewSection (de_sizeV2 (da_entry a))])
      \<and> (de_status (da_entry a) = StRemoved \<longrightarrow>
           da_reasons a = [RemovedSection (de_sizeV1 (da_entry a))])
      \<and> (de_status (da_entry a) = StAdded \<or> de_status (da_entry a) = StRemoved \<longrightarrow>
           da_severity a = (if \<bar>de_sizeDiff (da_entry a)\<bar> > 10240 then Critical else High)))
   \<and> (\<forall>e \<in> set (dr_diff (computeMemoryDiff now V1 V2 opts)).
        (de_status e = StAdded \<longrightarrow>
           ((\<exists>a \<in> set (dr_anomalies (computeMemoryDiff now V1 V2 opts)). da_entry a = e)
              \<longleftrightarrow> de_sizeV2 e > 1024)
         \<and> (de_sizeV2 e > 1024 \<longrightarrow>
              \<lparr>da_entry = e, da_reasons = [NewSection (de_sizeV2 e)],
               da_severity = (if \<bar>de_sizeDiff e\<bar> > 10240 then Critical else High)\<rparr>
              \<in> set (dr_anomalies (computeMemoryDiff now V1 V2 opts))))
      \<and> (de_status e = StRemoved \<longrightarrow>
           ((\<exists>a \<in> set (dr_anomalies (computeMemoryDiff now V1 V2 opts)). da_entry a = e)
              \<longleftrightarrow> de_sizeV1 e > 1024)
         \<and> (de_sizeV1 e > 1024 \<longrightarrow>
              \<lparr>da_entry = e, da_reasons = [RemovedSection (de_sizeV1 e)],
               da_severity = (if \<bar>de_sizeDiff e\<bar> > 10240 then Critical else High)\<rparr>
              \<in> set (dr_anomalies (computeMemoryDiff now V1 V2 opts)))))
   \<and> (sec_name s = ''.bss.x'' \<and> sec_size s = 2000
        \<and> map_of (sectionsByKey (sections V1)) (sectionKey s) = None
        \<and> map_of (sectionsByKey (sections V2)) (sectionKey s) = Some s
        \<and> x = diffEntryOf opts (sectionsByKey (sections V1)) (sectionsByKey (sections V2)) (sectionKey s)
      \<longrightarrow> de_status x = StAdded \<and> de_region x = RAM \<and> de_sizeV2 x = 2000
        \<and> x \<in> set (dr_diff (computeMemoryDiff now V1 V2 opts))
        \<and> \<lparr>da_entry = x, da_reasons = [NewSection 2000], da_severity = High\<rparr>
            \<in> set (dr_anomalies (computeMemoryDiff now V1 V2 opts))
        \<and> (\<forall>a \<in> set (dr_anomalies (computeMemoryDiff now V1 V2 opts)).
              da_entry a = x \<longrightarrow> da_reasons a = [NewSection 2000] \<and> da_severity a = High))"
proof -
  let ?R = "computeMemoryDiff now V1 V2 opts"
  have p1: "\<forall>a \<in> set (dr_anomalies ?R).
        da_entry a \<in> set (dr_diff ?R)
      \<and> ((\<exists>n. NewSection n \<in> set (da_reasons a)) \<longleftrightarrow>
           (de_status (da_entry a) = StAdded \<and> de_sizeV2 (da_entry a) > 1024))
      \<and> ((\<exists>n. RemovedSection n \<in> set (da_reasons a)) \<longleftrightarrow>
           (de_status (da_entry a) = StRemoved \<and> de_sizeV1 (da_entry a) > 1024))
      \<and> (de_status (da_entry a) = StAdded \<longrightarrow>
           da_reasons a = [NewSection (de_sizeV2 (da_entry a))])
      \<and> (de_status (da_entry a) = StRemoved \<longrightarrow>
           da_reasons a = [RemovedSection (de_sizeV1 (da_entry a))])
      \<and> (de_status (da_entry a) = StAdded \<or> de_status (da_entry a) = StRemoved \<longrightarrow>
           da_severity a = (if \<bar>de_sizeDiff (da_entry a)\<bar> > 10240 then Critical else High))"
    by (intro ballI) (rule reported_anomaly_props)
  have p2: "\<forall>e \<in> set (dr_diff ?R).
        (de_status e = StAdded \<longrightarrow>
           ((\<exists>a \<in> set (dr_anomalies ?R). da_entry a = e) \<longleftrightarrow> de_sizeV2 e > 1024)
         \<and> (de_sizeV2 e > 1024 \<longrightarrow>
              \<lparr>da_entry = e, da_reasons = [NewSection (de_sizeV2 e)],
               da_severity = (if \<bar>de_sizeDiff e\<bar> > 10240 then Critical else High)\<rparr>
              \<in> set (dr_anomalies ?R)))
      \<and> (de_status e = StRemoved \<longrightarrow>
           ((\<exists>a \<in> set (dr_anomalies ?R). da_entry a = e) \<longleftrightarrow> de_sizeV1 e > 1024)
         \<and> (de_sizeV1 e > 1024 \<longrightarrow>
              \<lparr>da_entry = e, da_reasons = [RemovedSection (de_sizeV1 e)],
               da_severity = (if \<bar>de_sizeDiff e\<bar> > 10240 then Critical else High)\<rparr>
              \<in> set (dr_anomalies ?R)))"
    by (intro ballI) (rule diff_entry_anomaly)
  have p3: "sec_name s = ''.bss.x'' \<and> sec_size s = 2000
        \<and> map_of (sectionsByKey (sections V1)) (sectionKey s) = None
        \<and> map_of (sectionsByKey (sections V2)) (sectionKey s) = Some s
        \<and> x = diffEntryOf opts (sectionsByKey (sections V1)) (sectionsByKey (sections V2)) (sectionKey s)
      \<longrightarrow> de_status x = StAdded \<and> de_region x = RAM \<and> de_sizeV2 x = 2000
        \<and> x \<in> set (dr_diff ?R)
        \<and> \<lparr>da_entry = x, da_reasons = [NewSection 2000], da_severity = High\<rparr>
            \<in> set (dr_anomalies ?R)
        \<and> (\<forall>a \<in> set (dr_anomalies ?R).
              da_entry a = x \<longrightarrow> da_reasons a = [NewSection 2000] \<and> da_severity a = High)"
  proof
    assume h: "sec_name s = ''.bss.x'' \<and> sec_size s = 2000
        \<and> map_of (sectionsByKey (sections V1)) (sectionKey s) = None
        \<and> map_of (sectionsByKey (sections V2)) (sectionKey s) = Some s
        \<and> x = diffEntryOf opts (sectionsByKey (sections V1)) (sectionsByKey (sections V2)) (sectionKey s)"
    then have b: "de_status x = StAdded \<and> de_region x = RAM \<and> de_sizeV2 x = 2000
       \<and> anomalyOf opts x = [\<lparr>da_entry = x, da_reasons = [NewSection 2000], da_severity = High\<rparr>]
       \<and> x \<in> set (dr_diff ?R)
       \<and> \<lparr>da_entry = x, da_reasons = [NewSection 2000], da_severity = High\<rparr>
            \<in> set (dr_anomalies ?R)"
      by (intro bss_x_scenario) simp_all
    have u: "\<forall>a \<in> set (dr_anomalies ?R).
              da_entry a = x \<longrightarrow> da_reasons a = [NewSection 2000] \<and> da_severity a = High"
    proof (intro ballI impI)
      fix a assume a: "a \<in> set (dr_anomalies ?R)" and e: "da_entry a = x"
      then have "a \<in> set (anomalyOf opts x)" by (simp add: dr_anomalies_member)
      with b have "a = \<lparr>da_entry = x, da_reasons = [NewSection 2000], da_severity = High\<rparr>"
        by simp
      then show "da_reasons a = [NewSection 2000] \<and> da_severity a = High"
        by (metis DiffAnomaly.select_convs(2,3))
    qed
    from b u show "de_status x = StAdded \<and> de_region x = RAM \<and> de_sizeV2 x = 2000
        \<and> x \<in> set (dr_diff ?R)
        \<and> \<lparr>da_entry = x, da_reasons = [NewSection 2000], da_severity = High\<rparr>
            \<in> set (dr_anomalies ?R)
        \<and> (\<forall>a \<in> set (dr_anomalies ?R).
              da_entry a = x \<longrightarrow> da_reasons a = [NewSection 2000] \<and> da_severity a = High)"
      by blast
  qed
  from p1 p2 p3 show ?thesis by blast
qed

text \<open>
  The example builds in both directions: \<open>.bss.x\<close> of 2000 bytes is reported as added one way
  and as removed the other, and the removed \<open>.data\<close> of 50 bytes is not reported at all.
\<close>

theorem added_removed_anomalies_witness:
  "map_of (sectionsByKey (sections exampleV1)) ''.bss.x:x.o'' = None
   \<and> map_of (sectionsByKey (sections exampleV2)) ''.bss.x:x.o'' =
       Some \<lparr>sec_name = ''.bss.x'', sec_address = Some ''0x20000100'', sec_size = 2000,
             sec_filePath = Some ''x.o''\<rparr>
   \<and> diffEntryOf defaultDiffOptions (sectionsByKey (sections exampleV1))
        (sectionsByKey (sections exampleV2)) ''.bss.x:x.o''
      \<in> set (dr_diff (computeMemoryDiff ''2025-10-06T00:00:00.000Z'' exampleV1 exampleV2
                defaultDiffOptions))
   \<and> de_status (diffEntryOf defaultDiffOptions (sectionsByKey (sections exampleV1))
        (sectionsByKey (sections exampleV2)) ''.bss.x:x.o'') = StAdded
   \<and> de_region (diffEntryOf defaultDiffOptions (sectionsByKey (sections exampleV1))
        (sectionsByKey (sections exampleV2)) ''.bss.x:x.o'') = RAM
   \<and> \<lparr>da_entry = diffEntryOf defaultDiffOptions (sectionsByKey (sections exampleV1))
          (sectionsByKey (sections exampleV2)) ''.bss.x:x.o'',
       da_reasons = [NewSection 2000], da_severity = High\<rparr>
      \<in> set (dr_anomalies (computeMemoryDiff ''2025-10-06T00:00:00.000Z'' exampleV1 exampleV2
                defaultDiffOptions))
   \<and> diffEntryOf defaultDiffOptions (sectionsByKey (sections exampleV2))
        (sectionsByKey (sections exampleV1)) ''.bss.x:x.o''
      \<in> set (dr_diff (computeMemoryDiff ''2025-10-06T00:00:00.000Z'' exampleV2 exampleV1
                defaultDiffOptions))
   \<and> de_status (diffEntryOf defaultDiffOptions (sectionsByKey (sections exampleV2))
        (sectionsByKey (sections exampleV1)) ''.bss.x:x.o'') = StRemoved
   \<and> \<lparr>da_entry = diffEntryOf defaultDiffOptions (sectionsByKey (sections exampleV2))
          (sectionsByKey (sections exampleV1)) ''.bss.x:x.o'',
       da_reasons = [RemovedSection 2000], da_severity = High\<rparr>
      \<in> set (dr_anomalies (computeMemoryDiff ''2025-10-06T00:00:00.000Z'' exampleV2 exampleV1
                defaultDiffOptions))
   \<and> diffEntryOf defaultDiffOptions (sectionsByKey (sections exampleV1))
        (sectionsByKey (sections exampleV2)) ''.data:''
      \<in> set (dr_diff (computeMemoryDiff ''2025-10-06T00:00:00.000Z'' exampleV1 exampleV2
                defaultDiffOptions))
   \<and> de_status (diffEntryOf defaultDiffOptions (sectionsByKey (sections exampleV1))
        (sectionsByKey (sections exampleV2)) ''.data:'') = StRemoved
   \<and> de_sizeV1 (diffEntryOf defaultDiffOptions (sectionsByKey (sections exampleV1))
        (sectionsByKey (sections exampleV2)) ''.data:'') = 50
   \<and> \<not> (\<exists>a \<in> set (dr_anomalies (computeMemoryDiff ''2025-10-06T00:00:00.000Z'' exampleV1 exampleV2
                defaultDiffOptions)).
          da_entry a = diffEntryOf defaultDiffOptions (sectionsByKey (sections exampleV1))
            (sectionsByKey (sections exampleV2)) ''.data:'')"
proof -
  let ?t = "''2025-10-06T00:00:00.000Z''"
  let ?s = "\<lparr>sec_name = ''.bss.x'', sec_address = Some ''0x20000100'', sec_size = 2000,
            sec_filePath = Some ''x.o''\<rparr>"
  let ?m1 = "sectionsByKey (sections exampleV1)" and ?m2 = "sectionsByKey (sections exampleV2)"
  let ?x = "diffEntryOf defaultDiffOptions ?m1 ?m2 ''.bss.x:x.o''"
  let ?y = "diffEntryOf defaultDiffOptions ?m2 ?m1 ''.bss.x:x.o''"
  let ?z = "diffEntryOf defaultDiffOptions ?m1 ?m2 ''.data:''"
  let ?R12 = "computeMemoryDiff ?t exampleV1 exampleV2 defaultDiffOptions"
  let ?R21 = "computeMemoryDiff ?t exampleV2 exampleV1 defaultDiffOptions"
  have key: "sectionKey ?s = ''.bss.x:x.o''" by (simp add: sectionKey_def)
  have h: "sec_name ?s = ''.bss.x'' \<and> sec_size ?s = 2000
        \<and> map_of ?m1 (sectionKey ?s) = None
        \<and> map_of ?m2 (sectionKey ?s) = Some ?s
        \<and> ?x = diffEntryOf defaultDiffOptions ?m1 ?m2 (sectionKey ?s)"
    unfolding key using example_byKey_V1 example_byKey_V2 by simp
  note T12 = added_removed_anomalies[where s = ?s and ?V1.0 = exampleV1 and ?V2.0 = exampleV2
      and x = ?x and opts = defaultDiffOptions and now = ?t]
  note T21 = added_removed_anomalies[where s = ?s and ?V1.0 = exampleV2 and ?V2.0 = exampleV1
      and x = ?x and opts = defaultDiffOptions and now = ?t]
  have a: "de_status ?x = StAdded \<and> de_region ?x = RAM \<and> de_sizeV2 ?x = 2000
        \<and> ?x \<in> set (dr_diff ?R12)
        \<and> \<lparr>da_entry = ?x, da_reasons = [NewSection 2000], da_severity = High\<rparr>
            \<in> set (dr_anomalies ?R12)
        \<and> (\<forall>a \<in> set (dr_anomalies ?R12).
              da_entry a = ?x \<longrightarrow> da_reasons a = [NewSection 2000] \<and> da_severity a = High)"
    by (rule mp[OF T12[THEN conjunct2, THEN conjunct2] h])
  have y: "de_status ?y = StRemoved \<and> de_sizeV1 ?y = 2000 \<and> de_sizeDiff ?y = - 2000"
    using example_byKey_V1 example_byKey_V2 by (simp add: diffEntryOf_def Let_def)
  have ym: "?y \<in> set (dr_diff ?R21)"
    unfolding dr_diff_set using key_in_allKeys_left[OF example_byKey_V2, of exampleV1] by simp
  note ey = bspec[OF T21[THEN conjunct2, THEN conjunct1] ym, THEN conjunct2]
  have y1: "de_status ?y = StRemoved" and y2: "de_sizeV1 ?y > 1024" and y3: "\<not> \<bar>de_sizeDiff ?y\<bar> > 10240"
    using y by simp_all
  have "\<lparr>da_entry = ?y, da_reasons = [RemovedSection (de_sizeV1 ?y)],
           da_severity = (if \<bar>de_sizeDiff ?y\<bar> > 10240 then Critical else High)\<rparr>
          \<in> set (dr_anomalies ?R21)"
    by (rule mp[OF mp[OF ey y1, THEN conjunct2] y2])
  then have r: "\<lparr>da_entry = ?y, da_reasons = [RemovedSection 2000], da_severity = High\<rparr>
          \<in> set (dr_anomalies ?R21)"
    using y by simp
  have z: "de_status ?z = StRemoved \<and> de_sizeV1 ?z = 50"
    using example_byKey_data_V1 example_byKey_data_V2 by (simp add: diffEntryOf_def Let_def)
  have zm: "?z \<in> set (dr_diff ?R12)"
    unfolding dr_diff_set using key_in_allKeys_left[OF example_byKey_data_V1, of exampleV2] by simp
  note ez = bspec[OF T12[THEN conjunct2, THEN conjunct1] zm, THEN conjunct2]
  have z1: "de_status ?z = StRemoved" using z by simp
  have "(\<exists>a \<in> set (dr_anomalies ?R12). da_entry a = ?z) \<longleftrightarrow> de_sizeV1 ?z > 1024"
    by (rule mp[OF ez z1, THEN conjunct1])
  then have nz: "\<not> (\<exists>a \<in> set (dr_anomalies ?R12). da_entry a = ?z)"
    using z by simp
  have c1: "map_of ?m1 ''.bss.x:x.o'' = None" by (rule example_byKey_V1)
  have c2: "map_of ?m2 ''.bss.x:x.o'' = Some ?s" by (rule example_byKey_V2)
  have c3: "?x \<in> set (dr_diff ?R12)" using a by (rule conjunct2[THEN conjunct2, THEN conjunct2, THEN conjunct1])
  have c4: "de_status ?x = StAdded" using a by (rule conjunct1)
  have c5: "de_region ?x = RAM" using a by (rule conjunct2[THEN conjunct1])
  have c6: "\<lparr>da_entry = ?x, da_reasons = [NewSection 2000], da_severity = High\<rparr>
            \<in> set (dr_anomalies ?R12)"
    using a by (rule conjunct2[THEN conjunct2, THEN conjunct2, THEN conjunct2, THEN conjunct1])
  have c8: "de_sizeV1 ?z = 50" using z by simp
  show ?thesis
    by (intro conjI c1 c2 c3 c4 c5 c6 ym y1 r zm z1 c8 nz)
qed

section \<open>Result store\<close>

lemma store_lookup:
  assumes "\<not> t3 > t1 + ttl"
  shows "map_of (snd (storeComparison isoTime rnd t1 t2 t3 r ttl st))
           (fst (storeComparison isoTime rnd t1 t2 t3 r ttl st)) =
         Some \<lparr>result = r, expiresAt = t1 + ttl, createdAt = t2\<rparr>"
  unfolding storeComparison_def Let_def cleanupExpired_def fst_conv snd_conv
  using assms by (intro map_of_filter_keep) (simp_all add: update_conv')

lemma store_put_get:
  assumes "t3 \<le> t1 + ttl" and "tg \<le> t1 + ttl"
  shows "getComparison (fst (storeComparison isoTime rnd t1 t2 t3 r ttl st)) tg
           (snd (storeComparison isoTime rnd t1 t2 t3 r ttl st)) =
         (Some r, snd (storeComparison isoTime rnd t1 t2 t3 r ttl st))"
proof -
  have "map_of (snd (storeComparison isoTime rnd t1 t2 t3 r ttl st))
          (fst (storeComparison isoTime rnd t1 t2 t3 r ttl st)) =
        Some \<lparr>result = r, expiresAt = t1 + ttl, createdAt = t2\<rparr>"
    using assms(1) by (intro store_lookup) simp
  with assms(2) show ?thesis by (simp add: getComparison_def)
qed

lemma get_expired:
  assumes "map_of st cid = Some entry" and "tg > expiresAt entry"
  shows "getComparison cid tg st = (None, AList.delete cid st)"
  using assms by (simp add: getComparison_def)

lemma example_store:
  "storeComparison ''2025-10-06T12:34:56.000Z'' [171, 205, 255, 16] 1000 1000 1001 (42::nat) DEFAULT_TTL []
     = (''cmp_20251006_abcdff10'',
        [(''cmp_20251006_abcdff10'', \<lparr>result = 42, expiresAt = 86401000, createdAt = 1000\<rparr>)])"
  by (simp add: storeComparison_def generateCompareId_def hexOfByte_def cleanupExpired_def
      DEFAULT_TTL_def Let_def)

text \<open>
  C9. A result that was stored is returned unchanged by a \<open>getComparison\<close> with the returned
  identifier: when it is stored with the default life time and read at the same clock
  reading, and in general as long as neither the sweep inside \<open>storeComparison\<close> nor the read
  happens after the expiry time. For every entry whose \<open>expiresAt\<close> lies before the time of
  the read, \<open>getComparison\<close> returns \<open>null\<close> and the entry is gone from the store afterwards.
\<close>

theorem store_put_get_expiry:
  "getComparison (fst (storeComparison isoTime rnd t1 t2 t1 r DEFAULT_TTL st)) t1
     (snd (storeComparison isoTime rnd t1 t2 t1 r DEFAULT_TTL st)) =
   (Some r, snd (storeComparison isoTime rnd t1 t2 t1 r DEFAULT_TTL st))
   \<and> (t3 \<le> t1 + ttl \<and> tg \<le> t1 + ttl \<longrightarrow>
      getComparison (fst (storeComparison isoTime rnd t1 t2 t3 r ttl st)) tg
        (snd (storeComparison isoTime rnd t1 t2 t3 r ttl st)) =
      (Some r, snd (storeComparison isoTime rnd t1 t2 t3 r ttl st)))
   \<and> (map_of st cid = Some entry \<and> tg > expiresAt entry \<longrightarrow>
        getComparison cid tg st = (None, AList.delete cid st)
      \<and> map_of (snd (getComparison cid tg st)) cid = None)
   \<and> (t3 \<le> t1 + ttl \<and> tg > t1 + ttl \<longrightarrow>
        fst (getComparison (fst (storeComparison isoTime rnd t1 t2 t3 r ttl st)) tg
              (snd (storeComparison isoTime rnd t1 t2 t3 r ttl st))) = None
      \<and> map_of (snd (getComparison (fst (storeComparison isoTime rnd t1 t2 t3 r ttl st)) tg
              (snd (storeComparison isoTime rnd t1 t2 t3 r ttl st))))
           (fst (storeComparison isoTime rnd t1 t2 t3 r ttl st)) = None)"
proof -
  let ?p = "storeComparison isoTime rnd t1 t2 t3 r ttl st"
  let ?q = "storeComparison isoTime rnd t1 t2 t1 r DEFAULT_TTL st"
  have i: "getComparison (fst ?q) t1 (snd ?q) = (Some r, snd ?q)"
    by (rule store_put_get) (simp_all add: DEFAULT_TTL_def)
  have a: "t3 \<le> t1 + ttl \<and> tg \<le> t1 + ttl \<longrightarrow> getComparison (fst ?p) tg (snd ?p) = (Some r, snd ?p)"
    by (simp add: store_put_get)
  have b: "map_of st cid = Some entry \<and> tg > expiresAt entry \<longrightarrow>
        getComparison cid tg st = (None, AList.delete cid st)
      \<and> map_of (snd (getComparison cid tg st)) cid = None"
    by (simp add: get_expired delete_conv')
  have c: "t3 \<le> t1 + ttl \<and> tg > t1 + ttl \<longrightarrow>
        fst (getComparison (fst ?p) tg (snd ?p)) = None
      \<and> map_of (snd (getComparison (fst ?p) tg (snd ?p))) (fst ?p) = None"
  proof
    assume h: "t3 \<le> t1 + ttl \<and> tg > t1 + ttl"
    then have "map_of (snd ?p) (fst ?p) = Some \<lparr>result = r, expiresAt = t1 + ttl, createdAt = t2\<rparr>"
      by (intro store_lookup) simp
    with h show "fst (getComparison (fst ?p) tg (snd ?p)) = None
      \<and> map_of (snd (getComparison (fst ?p) tg (snd ?p))) (fst ?p) = None"
      by (simp add: getComparison_def delete_conv')
  qed
  from i a b c show ?thesis by blast
qed

text \<open>
  A result stored at time 1000 with the default life time is read back at time 1002 and is
  refused and removed one millisecond after its expiry.
\<close>

theorem store_put_get_expiry_witness:
  "(1001::int) \<le> 1000 + DEFAULT_TTL \<and> (1002::int) \<le> 1000 + DEFAULT_TTL
   \<and> storeComparison ''2025-10-06T12:34:56.000Z'' [171, 205, 255, 16] 1000 1000 1001 (42::nat)
        DEFAULT_TTL []
      = (''cmp_20251006_abcdff10'',
         [(''cmp_20251006_abcdff10'', \<lparr>result = 42, expiresAt = 86401000, createdAt = 1000\<rparr>)])
   \<and> getComparison ''cmp_20251006_abcdff10'' 1002
        [(''cmp_20251006_abcdff10'', \<lparr>result = 42::nat, expiresAt = 86401000, createdAt = 1000\<rparr>)]
      = (Some 42,
         [(''cmp_20251006_abcdff10'', \<lparr>result = 42, expiresAt = 86401000, createdAt = 1000\<rparr>)])
   \<and> map_of [(''cmp_20251006_abcdff10'', \<lparr>result = 42::nat, expiresAt = 86401000, createdAt = 1000\<rparr>)]
        ''cmp_20251006_abcdff10'' = Some \<lparr>result = 42, expiresAt = 86401000, createdAt = 1000\<rparr>
   \<and> (86401001::int) > expiresAt \<lparr>result = 42::nat, expiresAt = 86401000, createdAt = 1000\<rparr>
   \<and> (86401001::int) > 1000 + DEFAULT_TTL
   \<and> getComparison ''cmp_20251006_abcdff10'' 86401001
        [(''cmp_20251006_abcdff10'', \<lparr>result = 42::nat, expiresAt = 86401000, createdAt = 1000\<rparr>)]
      = (None, [])"
proof -
  let ?e = "\<lparr>result = 42::nat, expiresAt = 86401000, createdAt = 1000\<rparr>"
  let ?st = "[(''cmp_20251006_abcdff10'', ?e)]"
  have h1: "(1001::int) \<le> 1000 + DEFAULT_TTL \<and> (1002::int) \<le> 1000 + DEFAULT_TTL"
    by (simp add: DEFAULT_TTL_def)
  have g1: "getComparison ''cmp_20251006_abcdff10'' 1002 ?st = (Some 42, ?st)"
    using h1 store_put_get_expiry[where ?t3.0 = 1001 and ?t1.0 = 1000 and ttl = DEFAULT_TTL
        and tg = 1002 and isoTime = "''2025-10-06T12:34:56.000Z''" and rnd = "[171, 205, 255, 16]"
        and ?t2.0 = 1000 and r = "42::nat" and st = "[]"]
    unfolding example_store by simp
  have h2: "map_of ?st ''cmp_20251006_abcdff10'' = Some ?e \<and> (86401001::int) > expiresAt ?e"
    by simp
  have h3: "(86401001::int) > 1000 + DEFAULT_TTL" by (simp add: DEFAULT_TTL_def)
  have g2: "getComparison ''cmp_20251006_abcdff10'' 86401001 ?st = (None, AList.delete ''cmp_20251006_abcdff10'' ?st)"
    using h2 store_put_get_expiry[where st = ?st and cid = "''cmp_20251006_abcdff10''"
        and entry = ?e and tg = 86401001]
    by blast
  have g3: "fst (getComparison ''cmp_20251006_abcdff10'' 86401001 ?st) = None"
    using h1 h3 store_put_get_expiry[where ?t3.0 = 1001 and ?t1.0 = 1000 and ttl = DEFAULT_TTL
        and tg = 86401001 and isoTime = "''2025-10-06T12:34:56.000Z''" and rnd = "[171, 205, 255, 16]"
        and ?t2.0 = 1000 and r = "42::nat" and st = "[]"]
    unfolding example_store by simp
  show ?thesis using h1 g1 h2 h3 g2 g3 example_store by (simp add: AList.delete_eq)
qed

end
